theory Spec2Isabelle
  imports
    Complex_Main
    "HOL-Library.Char_ord"
    "HOL-Library.List_Lexorder"
    "HOL-Library.Product_Lexorder"
begin

section \<open>Email-to-order extraction: a shallow embedding of \<^verbatim>\<open>app/services/email_processor.py\<close>\<close>

text \<open>
  Conventions of the embedding.
  \<^item> A Python \<^verbatim>\<open>str\<close> is a \<^typ>\<open>string\<close>, read as a list of code points below 256
    (the Latin-1 range). On that range \<^verbatim>\<open>\d\<close> is \<^verbatim>\<open>[0-9]\<close>, and the
    case-insensitive regular expressions of the source, whose letters are all ASCII, see
    a text exactly as its lower-cased copy.
  \<^item> Python's unbounded \<^verbatim>\<open>int\<close> is \<^typ>\<open>int\<close>. The interpreter refuses to convert
    between an \<^verbatim>\<open>int\<close> and a decimal text of more digits than its limit
    (\<^verbatim>\<open>sys.get_int_max_str_digits()\<close>, 4300 unless changed) and raises
    \<^verbatim>\<open>ValueError\<close>; both conversions of the source, \<^verbatim>\<open>int(...)\<close> of a digit run
    and the formatting of an \<^verbatim>\<open>int\<close> in an f-string, carry that error.
  \<^item> The confidence scores of the source are the floats 1.0, 0.5, 0.7 and 0.0, sums of 1.0
    and quotients \<open>n / n\<close>; the similarity ratio of \<^verbatim>\<open>difflib\<close> is \<open>2 * M / T\<close> for
    natural numbers \<open>M \<le> T\<close>. They are modelled by \<^typ>\<open>rat\<close>: on these values the float
    operations and comparisons of the source agree with the exact ones.
  \<^item> \<^verbatim>\<open>None\<close> is \<^const>\<open>None\<close>; an exception is the \<^const>\<open>Inl\<close> side of a sum.
  \<^item> The \<^verbatim>\<open>print\<close> calls of the source write to the console and are left out.
\<close>

subsection \<open>String operations of Python used by the source\<close>

definition isdigit :: "char \<Rightarrow> bool" where
  "isdigit c \<longleftrightarrow> CHR ''0'' \<le> c \<and> c \<le> CHR ''9''"

text \<open>\<^verbatim>\<open>str.isspace\<close> on one code point below 256: TAB..CR, FS..US, space, NEL, NBSP.\<close>

definition isspace :: "char \<Rightarrow> bool" where
  "isspace c \<longleftrightarrow>
     (let n = (of_char c :: nat)
      in (9 \<le> n \<and> n \<le> 13) \<or> (28 \<le> n \<and> n \<le> 32) \<or> n = 133 \<or> n = 160)"

text \<open>\<^verbatim>\<open>str.lower\<close>: A..Z and the Latin-1 capitals (all of 192..222 but the
  multiplication sign 215) move up by 32.\<close>

definition lower_char :: "char \<Rightarrow> char" where
  "lower_char c =
     (let n = (of_char c :: nat)
      in if (65 \<le> n \<and> n \<le> 90) \<or> (192 \<le> n \<and> n \<le> 222 \<and> n \<noteq> 215)
         then char_of (n + 32) else c)"

definition lower :: "string \<Rightarrow> string" where
  "lower s = map lower_char s"

text \<open>\<^verbatim>\<open>s.strip(chars)\<close> and \<^verbatim>\<open>s.strip()\<close>.\<close>

definition strip_chars :: "(char \<Rightarrow> bool) \<Rightarrow> string \<Rightarrow> string" where
  "strip_chars P s = rev (dropWhile P (rev (dropWhile P s)))"

definition strip :: "string \<Rightarrow> string" where
  "strip s = strip_chars isspace s"

text \<open>\<^verbatim>\<open>sub in s\<close>: \<open>sub\<close> occurs in \<open>s\<close> as a contiguous block.\<close>

fun starts_with :: "string \<Rightarrow> string \<Rightarrow> bool" where
  "starts_with [] s = True"
| "starts_with (p # ps) [] = False"
| "starts_with (p # ps) (c # cs) = (p = c \<and> starts_with ps cs)"

fun contains :: "string \<Rightarrow> string \<Rightarrow> bool" where
  "contains sub [] = (sub = [])"
| "contains sub (c # cs) = (starts_with sub (c # cs) \<or> contains sub cs)"

text \<open>\<^verbatim>\<open>s.splitlines()\<close>: a line ends at LF, CR, CR LF, VT, FF, FS, GS, RS or NEL; the
  terminators are dropped and a terminator at the very end opens no further line.\<close>

definition is_linebreak :: "char \<Rightarrow> bool" where
  "is_linebreak c \<longleftrightarrow>
     (let n = (of_char c :: nat)
      in (10 \<le> n \<and> n \<le> 13) \<or> (28 \<le> n \<and> n \<le> 30) \<or> n = 133)"

fun splitlines_acc :: "string \<Rightarrow> string \<Rightarrow> string list" where
  "splitlines_acc cur [] = (if cur = [] then [] else [rev cur])"
| "splitlines_acc cur (c # cs) =
     (if is_linebreak c then
        rev cur # (case cs of
                     d # ds \<Rightarrow> if c = CHR 0x0D \<and> d = CHR 0x0A
                               then splitlines_acc [] ds else splitlines_acc [] cs
                   | [] \<Rightarrow> [])
      else splitlines_acc (c # cur) cs)"

definition splitlines :: "string \<Rightarrow> string list" where
  "splitlines s = splitlines_acc [] s"

text \<open>The decimal text of an integer and the value of a run of decimal digits, the
  results of \<^verbatim>\<open>str(n)\<close> and \<^verbatim>\<open>int(s)\<close> where these return.\<close>

fun str_nat :: "nat \<Rightarrow> string" where
  "str_nat n =
     (if n < 10 then [char_of (48 + n)] else str_nat (n div 10) @ [char_of (48 + n mod 10)])"

definition str_int :: "int \<Rightarrow> string" where
  "str_int i = (if i < 0 then CHR ''-'' # str_nat (nat (- i)) else str_nat (nat i))"

definition digit_val :: "char \<Rightarrow> int" where
  "digit_val c = int (of_char c) - 48"

definition decimal_value :: "string \<Rightarrow> int" where
  "decimal_value s = foldl (\<lambda>acc c. 10 * acc + digit_val c) 0 s"

subsection \<open>Exceptions\<close>

text \<open>The exceptions the modelled code can raise; \<open>and_then\<close> passes an exception on
  and continues with a returned value.\<close>

datatype error = KeyError string | TypeError | ValueError

definition and_then :: "error + 'a \<Rightarrow> ('a \<Rightarrow> error + 'b) \<Rightarrow> error + 'b" where
  "and_then m f = (case m of Inl e \<Rightarrow> Inl e | Inr x \<Rightarrow> f x)"

subsection \<open>Library functions and interpreter settings\<close>

text \<open>
  The similarity measure of \<^verbatim>\<open>difflib\<close>, the date parser, the clock and the
  interpreter's digit limit do not belong to this program; they are parameters of the
  model. \<open>'dt\<close> is the type \<^verbatim>\<open>datetime\<close>.
  \<^item> \<open>ratio a b\<close> is \<^verbatim>\<open>SequenceMatcher(None, a, b).ratio()\<close>.
  \<^item> \<open>parse s\<close> is \<^verbatim>\<open>dateparser.parse(s, settings={'PREFER_DATES_FROM': 'future'})\<close>.
  \<^item> \<open>search_dates s\<close> is \<^verbatim>\<open>search_dates(s, settings={'PREFER_DATES_FROM': 'future'})\<close>,
    with \<^verbatim>\<open>None\<close> read as the empty list (the source only tests its truth value).
  \<^item> \<open>strftime d fmt\<close> is \<^verbatim>\<open>d.strftime(fmt)\<close>, and \<open>now\<close> is the value
    \<^verbatim>\<open>datetime.now()\<close> returns when the order is built.
  \<^item> \<open>int_max_str_digits\<close> is \<^verbatim>\<open>sys.get_int_max_str_digits()\<close>: 4300 by default, 0
    where the limit is switched off or the interpreter has none.
\<close>

record 'dt lib =
  ratio :: "string \<Rightarrow> string \<Rightarrow> rat"
  parse :: "string \<Rightarrow> 'dt option"
  search_dates :: "string \<Rightarrow> (string \<times> 'dt) list"
  strftime :: "'dt \<Rightarrow> string \<Rightarrow> string"
  now :: 'dt
  int_max_str_digits :: nat

text \<open>
  A conversion of \<open>n\<close> decimal digits is refused when a limit is set and \<open>n\<close> is above
  both the limit and 640, the length below which the interpreter does not look at the
  limit. \<open>py_int\<close> is \<^verbatim>\<open>int(s)\<close> on a run of digits, which counts every digit of the
  run; \<open>py_str\<close> is the decimal formatting of an \<^verbatim>\<open>int\<close> (\<^verbatim>\<open>str(i)\<close>, \<^verbatim>\<open>{i}\<close> in
  an f-string), which counts the digits of the number without its sign.
\<close>

definition exceeds_limit :: "('dt, 'x) lib_scheme \<Rightarrow> nat \<Rightarrow> bool" where
  "exceeds_limit L n \<longleftrightarrow> int_max_str_digits L > 0 \<and> n > 640 \<and> n > int_max_str_digits L"

definition py_int :: "('dt, 'x) lib_scheme \<Rightarrow> string \<Rightarrow> error + int" where
  "py_int L s = (if exceeds_limit L (length s) then Inl ValueError else Inr (decimal_value s))"

definition py_str :: "('dt, 'x) lib_scheme \<Rightarrow> int \<Rightarrow> error + string" where
  "py_str L i =
     (if exceeds_limit L (length (str_nat (nat \<bar>i\<bar>))) then Inl ValueError else Inr (str_int i))"

text \<open>
  \<^verbatim>\<open>difflib.get_close_matches(word, possibilities, n, cutoff)\<close>, as the standard library
  defines it over \<^verbatim>\<open>ratio\<close>: every possibility \<open>x\<close> whose ratio against \<open>word\<close> reaches
  the cutoff is kept as the pair \<open>(score, x)\<close>, and the \<open>n\<close> largest pairs are returned,
  largest first, without their scores. Pairs are compared as Python compares tuples: by
  score, then by the string. (The two quick ratios the library tests first are upper
  bounds of \<^verbatim>\<open>ratio\<close>, so they change no result; the source calls the function with
  \<open>n\<close> = 1 or 2 and cutoff 0.6 or 0.8 only, for which it raises no \<^verbatim>\<open>ValueError\<close>.)
\<close>

definition nlargest :: "nat \<Rightarrow> (rat \<times> string) list \<Rightarrow> (rat \<times> string) list" where
  "nlargest n result = take n (rev (sort result))"

definition get_close_matches ::
  "(string \<Rightarrow> string \<Rightarrow> rat) \<Rightarrow> string \<Rightarrow> string list \<Rightarrow> nat \<Rightarrow> rat \<Rightarrow> string list" where
  "get_close_matches rt word possibilities n cutoff =
     (let result = map (\<lambda>x. (rt x word, x)) (filter (\<lambda>x. rt x word \<ge> cutoff) possibilities)
      in map snd (nlargest n result))"

subsection \<open>The catalog\<close>

text \<open>
  A row of the catalog, as \<^verbatim>\<open>match.iloc[0].to_dict()\<close> returns it: the five columns the
  source reads, under the names of the CSV header. A loaded catalog that has all five
  columns is the list of its rows, in file order.
\<close>

record Product_row =
  Product_Name :: string
  Product_Code :: string
  Min_Order_Quantity :: int
  Available_in_Stock :: int
  Price :: rat

type_synonym catalog = "Product_row list"

subsection \<open>\<^verbatim>\<open>EmailProcessor.validate_against_catalog\<close>\<close>

text \<open>
  The four messages. \<open>moq_issue_text\<close> and its like are the texts; \<open>moq_issue\<close> and its
  like are the f-strings of the source, which format their integers from left to right
  and raise where one of them is refused.
\<close>

definition moq_issue_text :: "int \<Rightarrow> Product_row \<Rightarrow> string" where
  "moq_issue_text quantity product =
     ''Quantity '' @ str_int quantity @ '' is below MOQ of ''
       @ str_int (Min_Order_Quantity product) @ '' for '' @ Product_Name product"

definition moq_suggestion_text :: "Product_row \<Rightarrow> string" where
  "moq_suggestion_text product =
     ''Increase quantity to '' @ str_int (Min_Order_Quantity product)"

definition stock_issue_text :: "int \<Rightarrow> Product_row \<Rightarrow> string" where
  "stock_issue_text quantity product =
     ''Requested quantity '' @ str_int quantity @ '' exceeds available stock of ''
       @ str_int (Available_in_Stock product) @ '' for '' @ Product_Name product"

definition stock_suggestion_text :: "Product_row \<Rightarrow> string" where
  "stock_suggestion_text product =
     ''Reduce quantity to '' @ str_int (Available_in_Stock product)"

definition moq_issue :: "('dt, 'x) lib_scheme \<Rightarrow> int \<Rightarrow> Product_row \<Rightarrow> error + string" where
  "moq_issue L quantity product =
     and_then (py_str L quantity) (\<lambda>q.
     and_then (py_str L (Min_Order_Quantity product)) (\<lambda>m.
       Inr (''Quantity '' @ q @ '' is below MOQ of '' @ m @ '' for '' @ Product_Name product)))"

definition moq_suggestion :: "('dt, 'x) lib_scheme \<Rightarrow> Product_row \<Rightarrow> error + string" where
  "moq_suggestion L product =
     and_then (py_str L (Min_Order_Quantity product)) (\<lambda>m.
       Inr (''Increase quantity to '' @ m))"

definition stock_issue :: "('dt, 'x) lib_scheme \<Rightarrow> int \<Rightarrow> Product_row \<Rightarrow> error + string" where
  "stock_issue L quantity product =
     and_then (py_str L quantity) (\<lambda>q.
     and_then (py_str L (Available_in_Stock product)) (\<lambda>a.
       Inr (''Requested quantity '' @ q @ '' exceeds available stock of '' @ a
              @ '' for '' @ Product_Name product)))"

definition stock_suggestion :: "('dt, 'x) lib_scheme \<Rightarrow> Product_row \<Rightarrow> error + string" where
  "stock_suggestion L product =
     and_then (py_str L (Available_in_Stock product)) (\<lambda>a.
       Inr (''Reduce quantity to '' @ a))"

text \<open>
  The \<^verbatim>\<open>product\<close> argument is a row or \<^verbatim>\<open>None\<close>. In the branch \<^verbatim>\<open>if not product\<close> the
  source computes
  \<^verbatim>\<open>similar = difflib.get_close_matches(product, all_names, n=2, cutoff=0.6) if product else []\<close>:
  the condition \<^verbatim>\<open>product\<close> is false there, so \<^verbatim>\<open>similar\<close> is the empty list and the
  fuzzy matcher is never called.
\<close>

definition validate_against_catalog ::
  "('dt, 'x) lib_scheme \<Rightarrow> catalog \<Rightarrow> Product_row option \<Rightarrow> int
     \<Rightarrow> error + (bool \<times> string list \<times> string list)" where
  "validate_against_catalog L cat product quantity =
     (case product of
        None \<Rightarrow>
          (let issues = [''Product not found in catalog''];
               all_names = map Product_Name cat @ map Product_Code cat;
               similar = ([] :: string list);
               suggestions = (if similar \<noteq> [] then [] @ similar else [])
           in Inr (False, issues, suggestions))
      | Some p \<Rightarrow>
          and_then
            (if quantity < Min_Order_Quantity p
             then and_then (moq_issue L quantity p) (\<lambda>issue.
                  and_then (moq_suggestion L p) (\<lambda>suggestion.
                    Inr ([issue], [suggestion])))
             else Inr ([], []))
            (\<lambda>(issues, suggestions).
          and_then
            (if quantity > Available_in_Stock p
             then and_then (stock_issue L quantity p) (\<lambda>issue.
                  and_then (stock_suggestion L p) (\<lambda>suggestion.
                    Inr (issues @ [issue], suggestions @ [suggestion])))
             else Inr (issues, suggestions))
            (\<lambda>(issues, suggestions).
               Inr (length issues = 0, issues, suggestions))))"

subsection \<open>\<^verbatim>\<open>EmailProcessor.find_product\<close>\<close>

text \<open>
  \<^verbatim>\<open>self.catalog[mask]\<close> keeps the rows whose mask is true, \<^verbatim>\<open>match.empty\<close> tests for
  no row, \<^verbatim>\<open>match.iloc[0]\<close> is the first row kept.
\<close>

definition find_product :: "('dt, 'x) lib_scheme \<Rightarrow> catalog \<Rightarrow> string \<Rightarrow> Product_row option" where
  "find_product L cat extracted_name =
     (case filter (\<lambda>r. lower (Product_Name r) = lower extracted_name) cat of
        r # _ \<Rightarrow> Some r
      | [] \<Rightarrow>
     (case filter (\<lambda>r. lower (Product_Code r) = lower extracted_name) cat of
        r # _ \<Rightarrow> Some r
      | [] \<Rightarrow>
     (let all_names = map Product_Name cat @ map Product_Code cat;
          matches = get_close_matches (ratio L) extracted_name all_names 1 (4 / 5)
      in case matches of
           match_name # _ \<Rightarrow>
             (case filter (\<lambda>r. Product_Name r = match_name \<or> Product_Code r = match_name) cat of
                r # _ \<Rightarrow> Some r
              | [] \<Rightarrow> None)
         | [] \<Rightarrow> None)))"

subsection \<open>\<^verbatim>\<open>EmailProcessor.extract_products_and_quantities\<close>\<close>

definition NON_PRODUCT_PHRASES :: "string list" where
  "NON_PRODUCT_PHRASES =
     [''deliver to'', ''let me know'', ''pricing'', ''availability'', ''before'', ''address'',
      ''do deliver'', ''meguro'', ''japan'']"

text \<open>\<^verbatim>\<open>re.search(r'(\d+)', line)\<close>: the first maximal run of digits, if any.\<close>

definition first_digit_run :: "string \<Rightarrow> string option" where
  "first_digit_run line =
     (case dropWhile (\<lambda>c. \<not> isdigit c) line of
        [] \<Rightarrow> None
      | c # cs \<Rightarrow> Some (takeWhile isdigit (c # cs)))"

text \<open>\<^verbatim>\<open>re.sub(r'(\d+)', '', line)\<close>: every run of digits, so every digit, is deleted.\<close>

definition remove_digit_runs :: "string \<Rightarrow> string" where
  "remove_digit_runs line = filter (\<lambda>c. \<not> isdigit c) line"

text \<open>The characters of \<^verbatim>\<open>.strip(' -:x*.,')\<close>.\<close>

definition is_separator :: "char \<Rightarrow> bool" where
  "is_separator c \<longleftrightarrow> c \<in> set '' -:x*.,''"

definition is_noise :: "string \<Rightarrow> bool" where
  "is_noise extracted_name \<longleftrightarrow>
     (\<exists>phrase \<in> set NON_PRODUCT_PHRASES. contains phrase (lower extracted_name))"

type_synonym extracted = "Product_row option \<times> int \<times> rat \<times> string"

text \<open>
  The body of the loop over the lines, in its two parts. \<open>match_line\<close> is the part
  before the noise test: it returns \<^const>\<open>None\<close> where the source executes
  \<^verbatim>\<open>continue\<close> for want of a digit, the values of
  \<^verbatim>\<open>(product, quantity, confidence, extracted_name)\<close> otherwise, and raises where
  \<^verbatim>\<open>int(num_match.group(1))\<close> does. \<open>extract_line\<close> adds the noise test: it returns
  \<^const>\<open>None\<close> where either \<^verbatim>\<open>continue\<close> is executed, the tuple the source appends
  otherwise. An exception ends the loop and the function.
\<close>

definition match_line ::
  "('dt, 'x) lib_scheme \<Rightarrow> catalog \<Rightarrow> string \<Rightarrow> error + extracted option" where
  "match_line L cat line =
     (case first_digit_run line of
        None \<Rightarrow> Inr None
      | Some num_match \<Rightarrow>
          and_then (py_int L num_match) (\<lambda>quantity.
            (let product_names = map Product_Name cat;
                 candidate = strip_chars is_separator (remove_digit_runs line);
                 best = get_close_matches (ratio L) candidate product_names 1 (3 / 5)
             in case best of
                  extracted_name # _ \<Rightarrow>
                    Inr (Some (find_product L cat extracted_name, quantity, 1, extracted_name))
                | [] \<Rightarrow> Inr (Some (None, quantity, 1 / 2, candidate)))))"

definition extract_line ::
  "('dt, 'x) lib_scheme \<Rightarrow> catalog \<Rightarrow> string \<Rightarrow> error + extracted option" where
  "extract_line L cat line =
     and_then (match_line L cat line) (\<lambda>matched.
       case matched of
         None \<Rightarrow> Inr None
       | Some (product, quantity, confidence, extracted_name) \<Rightarrow>
           if is_noise extracted_name then Inr None
           else Inr (Some (product, quantity, confidence, extracted_name)))"

fun extract_loop ::
  "('dt, 'x) lib_scheme \<Rightarrow> catalog \<Rightarrow> string list \<Rightarrow> extracted list
     \<Rightarrow> error + extracted list" where
  "extract_loop L cat [] results = Inr results"
| "extract_loop L cat (line # lines) results =
     and_then (extract_line L cat line) (\<lambda>appended.
       case appended of
         None \<Rightarrow> extract_loop L cat lines results
       | Some r \<Rightarrow> extract_loop L cat lines (results @ [r]))"

definition extract_products_and_quantities ::
  "('dt, 'x) lib_scheme \<Rightarrow> catalog \<Rightarrow> string \<Rightarrow> error + extracted list" where
  "extract_products_and_quantities L cat text = extract_loop L cat (splitlines text) []"

subsection \<open>\<^verbatim>\<open>extract_delivery_details\<close>\<close>

text \<open>The truth value Python gives a string or \<^verbatim>\<open>None\<close>.\<close>

definition truthy :: "string option \<Rightarrow> bool" where
  "truthy a = (case a of None \<Rightarrow> False | Some s \<Rightarrow> s \<noteq> [])"

text \<open>\<^verbatim>\<open>[line.strip() for line in text.splitlines() if line.strip()]\<close>\<close>

definition stripped_lines :: "string \<Rightarrow> string list" where
  "stripped_lines text = map strip (filter (\<lambda>line. strip line \<noteq> []) (splitlines text))"

text \<open>\<^verbatim>\<open>line.split(':', 1)[-1]\<close>: what follows the first colon, the whole line when it
  has none.\<close>

definition after_first_colon :: "string \<Rightarrow> string" where
  "after_first_colon line =
     (case dropWhile (\<lambda>c. c \<noteq> CHR '':'') line of [] \<Rightarrow> line | _ # rest \<Rightarrow> rest)"

definition address_keywords :: "string list" where
  "address_keywords =
     [''ship to'', ''send to'', ''delivery address'', ''please deliver to'', ''deliver to'',
      ''recipient'', ''address is'', ''ship them to'']"

definition address_tokens :: "string list" where
  "address_tokens =
     [''street'', ''st'', ''avenue'', ''ave'', ''road'', ''rd'', ''lane'', ''ln'', ''blvd'',
      ''drive'', ''dr'', ''way'', ''court'', ''ct'', ''plaza'', ''circle'', ''parkway'',
      ''square'', ''block'', ''bldg'', ''suite'', ''apt'', ''unit'', ''room'', ''po box'',
      ''city'', '','']"

text \<open>\<^verbatim>\<open>re.search(r'(street|st|...|city|,)', s, re.IGNORECASE)\<close>: one of the tokens
  occurs in \<open>s\<close>, letter case ignored.\<close>

definition looks_like_address :: "string \<Rightarrow> bool" where
  "looks_like_address s \<longleftrightarrow> (\<exists>tok \<in> set address_tokens. contains tok (lower s))"

text \<open>\<open>starts_with_lower anchor s\<close>: the text \<open>s\<close> begins with the lower-case literal
  \<open>anchor\<close>, the letter case of \<open>s\<close> ignored. \<open>anchored anchor P s\<close>: the literal
  occurs somewhere in \<open>s\<close>, followed by a rest that satisfies \<open>P\<close>.\<close>

fun starts_with_lower :: "string \<Rightarrow> string \<Rightarrow> bool" where
  "starts_with_lower [] s = True"
| "starts_with_lower (p # ps) [] = False"
| "starts_with_lower (p # ps) (c # cs) = (if p = lower_char c then starts_with_lower ps cs else False)"

fun anchored :: "string \<Rightarrow> (string \<Rightarrow> bool) \<Rightarrow> string \<Rightarrow> bool" where
  "anchored anchor P [] = (anchor = [] \<and> P [])"
| "anchored anchor P (c # cs) =
     (if starts_with_lower anchor (c # cs) \<and> P (drop (length anchor) (c # cs)) then True
      else anchored anchor P cs)"

definition digit_next :: "string \<Rightarrow> bool" where
  "digit_next s = (case s of [] \<Rightarrow> False | d # _ \<Rightarrow> isdigit d)"

text \<open>\<^verbatim>\<open>re.search(r'(pcs|qty|x\s*\d+|need \d+)', line, re.IGNORECASE)\<close>\<close>

definition looks_like_product_line :: "string \<Rightarrow> bool" where
  "looks_like_product_line line \<longleftrightarrow>
     contains ''pcs'' (lower line) \<or> contains ''qty'' (lower line)
     \<or> anchored ''x'' (\<lambda>rest. digit_next (dropWhile isspace rest)) line
     \<or> anchored ''need '' digit_next line"

text \<open>
  The body run for the first keyword found in the line (the inner loop leaves with
  \<^verbatim>\<open>break\<close> after it). \<open>rest\<close> holds the lines after the current one, so
  \<^verbatim>\<open>lines[i+1]\<close> and \<^verbatim>\<open>lines[i+2]\<close> are its first two elements.
\<close>

definition keyword_body :: "string \<Rightarrow> string list \<Rightarrow> string \<Rightarrow> string option \<Rightarrow> string option" where
  "keyword_body line rest keyword address =
     (let after_colon = strip (after_first_colon line)
      in if after_colon \<noteq> [] \<and> lower after_colon \<noteq> keyword then Some after_colon
         else (case rest of
                 [] \<Rightarrow> address
               | next_line # rest' \<Rightarrow>
                   (case rest' of
                      [] \<Rightarrow> Some next_line
                    | line2 # _ \<Rightarrow>
                        if looks_like_address line2 then Some (next_line @ '', '' @ line2)
                        else Some next_line)))"

fun keyword_loop :: "string \<Rightarrow> string list \<Rightarrow> string list \<Rightarrow> string option \<Rightarrow> string option" where
  "keyword_loop line rest [] address = address"
| "keyword_loop line rest (keyword # kws) address =
     (if contains keyword (lower line) then keyword_body line rest keyword address
      else keyword_loop line rest kws address)"

fun address_loop :: "string list \<Rightarrow> string option \<Rightarrow> string option" where
  "address_loop [] address = address"
| "address_loop (line # rest) address =
     (let address' = keyword_loop line rest address_keywords address
      in if truthy address' then address' else address_loop rest address')"

fun fallback_loop :: "string list \<Rightarrow> string option \<Rightarrow> string option" where
  "fallback_loop [] address = address"
| "fallback_loop (line # rest) address =
     (if looks_like_product_line line then fallback_loop rest address
      else if looks_like_address line then Some line
      else fallback_loop rest address)"

definition extract_address :: "string \<Rightarrow> string option" where
  "extract_address text =
     (let lines = stripped_lines text;
          address = address_loop lines None
      in if \<not> truthy address then fallback_loop lines address else address)"

definition date_keywords :: "string list" where
  "date_keywords =
     [''before'', ''by'', ''deadline'', ''requested delivery date'', ''deliver on'',
      ''deliver before'', ''delivery date'', ''needed on'', ''arrive by'', ''no later than'',
      ''expected on'', ''required delivery date'']"

fun date_keyword_loop ::
  "('dt, 'x) lib_scheme \<Rightarrow> string \<Rightarrow> string list \<Rightarrow> string option \<Rightarrow> string option" where
  "date_keyword_loop L line [] date = date"
| "date_keyword_loop L line (keyword # kws) date =
     (if contains keyword (lower line) then
        (let date_str = (if CHR '':'' \<in> set line then after_first_colon line else line)
         in case parse L date_str of
              Some parsed_date \<Rightarrow> Some (strftime L parsed_date ''%Y-%m-%d'')
            | None \<Rightarrow> date_keyword_loop L line kws date)
      else date_keyword_loop L line kws date)"

fun date_loop :: "('dt, 'x) lib_scheme \<Rightarrow> string list \<Rightarrow> string option \<Rightarrow> string option" where
  "date_loop L [] date = date"
| "date_loop L (line # rest) date =
     (let date' = date_keyword_loop L line date_keywords date
      in if truthy date' then date' else date_loop L rest date')"

definition extract_date :: "('dt, 'x) lib_scheme \<Rightarrow> string \<Rightarrow> string option" where
  "extract_date L text =
     (let date = date_loop L (stripped_lines text) None
      in if \<not> truthy date then
           (case search_dates L text of
              [] \<Rightarrow> date
            | found # _ \<Rightarrow> Some (strftime L (snd found) ''%Y-%m-%d''))
         else date)"

text \<open>The dictionary \<^verbatim>\<open>{"address": address, "date": date}\<close> the function returns.\<close>

record delivery_dict =
  address :: "string option"
  date :: "string option"

definition extract_delivery_details :: "('dt, 'x) lib_scheme \<Rightarrow> string \<Rightarrow> delivery_dict" where
  "extract_delivery_details L text =
     \<lparr>address = extract_address text, date = extract_date L text\<rparr>"

subsection \<open>\<^verbatim>\<open>EmailProcessor.extract_customer_notes\<close>\<close>

text \<open>
  The four patterns are searched without \<^verbatim>\<open>re.DOTALL\<close>, so \<^verbatim>\<open>(.*)\<close> captures up to
  the next line feed. Each pattern is a literal anchor followed by parts that match
  whatever comes next, greedily; the leftmost occurrence of the anchor is therefore
  the match.
\<close>

fun find_after :: "string \<Rightarrow> string \<Rightarrow> string option" where
  "find_after anchor [] = (if anchor = [] then Some [] else None)"
| "find_after anchor (c # cs) =
     (if starts_with_lower anchor (c # cs) then Some (drop (length anchor) (c # cs))
      else find_after anchor cs)"

definition dot_star :: "string \<Rightarrow> string" where
  "dot_star s = takeWhile (\<lambda>c. c \<noteq> CHR 0x0A) s"

text \<open>\<^verbatim>\<open>[:\-\s]*\<close>\<close>

definition skip_separators :: "string \<Rightarrow> string" where
  "skip_separators s = dropWhile (\<lambda>c. c = CHR '':'' \<or> c = CHR ''-'' \<or> isspace c) s"

text \<open>\<^verbatim>\<open>s?\<close>\<close>

definition optional_s :: "string \<Rightarrow> string" where
  "optional_s s = (case s of [] \<Rightarrow> [] | c # cs \<Rightarrow> if lower_char c = CHR ''s'' then cs else c # cs)"

definition note_patterns :: "(string \<Rightarrow> string option) list" where
  "note_patterns =
     [\<lambda>text. map_option (\<lambda>rest. dot_star (skip_separators (optional_s rest)))
               (find_after ''note'' text),
      \<lambda>text. map_option (\<lambda>rest. dot_star (skip_separators rest))
               (find_after ''let me know'' text),
      \<lambda>text. map_option dot_star
               (find_after ''if there are better alternatives for any item, '' text),
      \<lambda>text. map_option (\<lambda>rest. dot_star (dropWhile isspace rest))
               (find_after ''sincerely,'' text)]"

fun notes_loop :: "(string \<Rightarrow> string option) list \<Rightarrow> string \<Rightarrow> string option" where
  "notes_loop [] text = None"
| "notes_loop (pat # pats) text =
     (case pat text of Some group1 \<Rightarrow> Some (strip group1) | None \<Rightarrow> notes_loop pats text)"

definition extract_customer_notes :: "string \<Rightarrow> string option" where
  "extract_customer_notes text = notes_loop note_patterns text"

subsection \<open>The models of \<^verbatim>\<open>app/models/base.py\<close>\<close>

record OrderItem =
  sku :: string
  quantity :: int
  confidence_score :: rat
  "notes" :: "string option"
  suggested_replacements :: "string list option"
  validation_issues :: "string list option"
  price :: rat

record 'dt Order =
  order_id :: string
  customer_email :: string
  items :: "OrderItem list"
  delivery_preferences :: "string option"
  created_at :: 'dt
  status :: string
  total_confidence_score :: rat
  order_validation_issues :: "string list option"

record 'dt EmailContent =
  raw_content :: string
  subject :: "string option"
  sender :: "string option"
  received_at :: "'dt option"
  thread_id :: "string option"

text \<open>
  The record \<open>Order\<close> has the fields class \<^verbatim>\<open>Order\<close> declares (its field
  \<^verbatim>\<open>validation_issues\<close> is \<open>order_validation_issues\<close> here, to tell it from the field
  of \<^verbatim>\<open>OrderItem\<close>). The class declares no field \<^verbatim>\<open>delivery_details\<close> and no field
  \<^verbatim>\<open>notes\<close>; those are fields of the other class \<^verbatim>\<open>OrderRequest\<close>.

  \<open>Order_init\<close> is the call \<^verbatim>\<open>Order(order_id=..., customer_email=..., items=...,
  total_confidence_score=..., validation_issues=..., delivery_details=..., notes=...)\<close> of
  \<^verbatim>\<open>process_email\<close>. \<^verbatim>\<open>Order\<close> is a pydantic \<^verbatim>\<open>BaseModel\<close> with the default configuration,
  under which a keyword argument that names no declared field is ignored; a declared
  field that is not passed takes its default.
\<close>

definition Order_init ::
  "'dt \<Rightarrow> string \<Rightarrow> string \<Rightarrow> OrderItem list \<Rightarrow> rat \<Rightarrow> string list \<Rightarrow> delivery_dict
     \<Rightarrow> string option \<Rightarrow> 'dt Order" where
  "Order_init now_value order_id_arg customer_email_arg items_arg total_confidence_score_arg
      validation_issues_arg delivery_details_arg notes_arg =
     \<lparr>order_id = order_id_arg,
      customer_email = customer_email_arg,
      items = items_arg,
      delivery_preferences = None,
      created_at = now_value,
      status = ''pending'',
      total_confidence_score = total_confidence_score_arg,
      order_validation_issues = Some validation_issues_arg\<rparr>"

subsection \<open>\<^verbatim>\<open>EmailProcessor.process_email\<close>\<close>

text \<open>The body of the loop over \<^verbatim>\<open>filtered_items\<close> builds one item; it raises
  where the validation does.\<close>

definition make_item ::
  "('dt, 'x) lib_scheme \<Rightarrow> catalog \<Rightarrow> extracted \<Rightarrow> error + OrderItem" where
  "make_item L cat entry =
     (case entry of (product, quantity_arg, confidence, extracted_name) \<Rightarrow>
        and_then (validate_against_catalog L cat product quantity_arg)
          (\<lambda>(is_valid, issues, suggestions).
             Inr \<lparr>sku = (case product of Some p \<Rightarrow> Product_Code p | None \<Rightarrow> extracted_name),
                  quantity = quantity_arg,
                  confidence_score = confidence,
                  notes = None,
                  suggested_replacements = (if \<not> is_valid then Some suggestions else None),
                  validation_issues = (if \<not> is_valid then Some issues else None),
                  price = (case product of Some p \<Rightarrow> Price p | None \<Rightarrow> 0)\<rparr>))"

fun items_loop ::
  "('dt, 'x) lib_scheme \<Rightarrow> catalog \<Rightarrow> extracted list \<Rightarrow> OrderItem list \<Rightarrow> rat
     \<Rightarrow> error + (OrderItem list \<times> rat)" where
  "items_loop L cat [] order_items total_confidence = Inr (order_items, total_confidence)"
| "items_loop L cat (entry # rest) order_items total_confidence =
     and_then (make_item L cat entry) (\<lambda>item.
       items_loop L cat rest (order_items @ [item])
         (total_confidence + fst (snd (snd entry))))"

text \<open>\<^verbatim>\<open>[item for item in extracted_items if item[2] >= 0.7]\<close>\<close>

definition filtered_items :: "extracted list \<Rightarrow> extracted list" where
  "filtered_items extracted_items = filter (\<lambda>item. fst (snd (snd item)) \<ge> 7 / 10) extracted_items"

text \<open>\<^verbatim>\<open>[issue for item in order_items if item.validation_issues
     for issue in item.validation_issues]\<close>\<close>

definition all_issues :: "OrderItem list \<Rightarrow> string list" where
  "all_issues order_items =
     concat (map (\<lambda>item. case validation_issues item of Some issues \<Rightarrow> issues | None \<Rightarrow> [])
       (filter (\<lambda>item. case validation_issues item of Some issues \<Rightarrow> issues \<noteq> [] | None \<Rightarrow> False)
          order_items))"

definition process_email ::
  "('dt, 'x) lib_scheme \<Rightarrow> catalog \<Rightarrow> 'dt EmailContent \<Rightarrow> error + 'dt Order" where
  "process_email L cat email =
     and_then (extract_products_and_quantities L cat (raw_content email)) (\<lambda>extracted_items.
     and_then (items_loop L cat (filtered_items extracted_items) [] 0)
       (\<lambda>(order_items, total_confidence).
          (let avg_confidence =
                 (if order_items \<noteq> [] then total_confidence / of_nat (length order_items)
                  else 0);
               delivery_details = extract_delivery_details L (raw_content email);
               notes_value = extract_customer_notes (raw_content email)
           in Inr (Order_init (now L)
                (''ORD-'' @ (case received_at email of
                               Some t \<Rightarrow> strftime L t ''%Y%m%d%H%M%S''
                             | None \<Rightarrow> ''TEMP''))
                (if truthy (sender email) then the (sender email) else ''unknown@email.com'')
                order_items
                avg_confidence
                (all_issues order_items)
                delivery_details
                notes_value))))"

subsection \<open>\<^verbatim>\<open>EmailProcessor.__init__\<close>: loading the catalog\<close>

text \<open>
  The table \<^verbatim>\<open>pd.read_csv\<close> returns is modelled by its columns, in header order, each a
  name with its cells. \<^verbatim>\<open>__init__\<close> reads one column of it, \<^verbatim>\<open>Product_Name\<close>;
  \<^verbatim>\<open>df[name]\<close> raises \<^verbatim>\<open>KeyError\<close> when the table has no such column, and
  \<^verbatim>\<open>re.escape\<close> raises \<^verbatim>\<open>TypeError\<close> on a cell that is no string. The source
  defines no exception class of its own.
\<close>

datatype cell = StrCell string | IntCell int | FloatCell rat

type_synonym DataFrame = "(string \<times> cell list) list"

definition column :: "DataFrame \<Rightarrow> string \<Rightarrow> error + cell list" where
  "column df name = (case map_of df name of None \<Rightarrow> Inl (KeyError name) | Some col \<Rightarrow> Inr col)"

text \<open>\<^verbatim>\<open>re.escape\<close> puts a backslash before each of
  \<^verbatim>\<open>()[]{}?*+-|^$\.&~#\<close>, space, TAB, LF, CR, VT and FF.\<close>

definition re_special :: "char \<Rightarrow> bool" where
  "re_special c \<longleftrightarrow>
     c \<in> set ''()[]{}?*+-|^$.&~# '' \<or> c = CHR 0x5C
     \<or> (let n = (of_char c :: nat) in 9 \<le> n \<and> n \<le> 13)"

definition re_escape :: "string \<Rightarrow> string" where
  "re_escape s = concat (map (\<lambda>c. if re_special c then [CHR 0x5C, c] else [c]) s)"

fun escape_all :: "cell list \<Rightarrow> error + string list" where
  "escape_all [] = Inr []"
| "escape_all (StrCell name # rest) =
     (case escape_all rest of Inl e \<Rightarrow> Inl e | Inr names \<Rightarrow> Inr (re_escape name # names))"
| "escape_all (_ # rest) = Inl TypeError"

fun join :: "string \<Rightarrow> string list \<Rightarrow> string" where
  "join sep [] = []"
| "join sep [x] = x"
| "join sep (x # y # ys) = x @ sep @ join sep (y # ys)"

text \<open>\<^verbatim>\<open>escaped_names.sort(key=len, reverse=True)\<close> is a stable sort, longest first.\<close>

definition build_product_name_regex :: "cell list \<Rightarrow> error + string" where
  "build_product_name_regex product_names =
     (case escape_all product_names of
        Inl e \<Rightarrow> Inl e
      | Inr escaped_names \<Rightarrow>
          Inr (''('' @ join ''|'' (sort_key (\<lambda>name. - int (length name)) escaped_names) @ '')''))"

record EmailProcessor =
  catalog :: DataFrame
  product_name_pattern :: string
  sku_pattern :: string
  quantity_pattern :: string

definition EmailProcessor_init :: "DataFrame \<Rightarrow> error + EmailProcessor" where
  "EmailProcessor_init df =
     (case column df ''Product_Name'' of
        Inl e \<Rightarrow> Inl e
      | Inr names \<Rightarrow>
          (case build_product_name_regex names of
             Inl e \<Rightarrow> Inl e
           | Inr pattern \<Rightarrow>
               Inr \<lparr>catalog = df,
                    product_name_pattern = pattern,
                    sku_pattern = ''[A-Z]{2,3}-'' @ [CHR 0x5C] @ ''d{3,4}'',
                    quantity_pattern =
                      ''('' @ [CHR 0x5C] @ ''d+)'' @ [CHR 0x5C]
                        @ ''s*(?:pcs|pieces|units|qty|quantity)?''\<rparr>))"

text \<open>
  The methods above read \<^verbatim>\<open>self.catalog\<close> only, and read it as the rows of a table
  that has the five columns: they take the \<^typ>\<open>catalog\<close> in place of \<^verbatim>\<open>self\<close>.
\<close>

subsection \<open>Example inputs\<close>

definition super_widget :: Product_row where
  "super_widget = \<lparr>Product_Name = ''SuperWidget'', Product_Code = ''SW-1'',
     Min_Order_Quantity = 20, Available_in_Stock = 5, Price = 2\<rparr>"

definition mega_bolt :: Product_row where
  "mega_bolt = \<lparr>Product_Name = ''Mega Bolt'', Product_Code = ''MB-22'',
     Min_Order_Quantity = 1, Available_in_Stock = 100, Price = 3\<rparr>"

definition japan_tea :: Product_row where
  "japan_tea = \<lparr>Product_Name = ''Japan Tea'', Product_Code = ''JT-7'',
     Min_Order_Quantity = 1, Available_in_Stock = 50, Price = 4\<rparr>"

text \<open>
  A library for the examples. On the catalog names and codes above against the phrases
  of the examples its ratio is the value \<^verbatim>\<open>difflib\<close> computes: 1 on equal strings, the
  table below, and 0 for a pair that is not listed (no character in common). It finds
  no date, its \<open>datetime\<close> is \<^typ>\<open>unit\<close>, and its digit limit is the default.
\<close>

definition example_ratio :: "string \<Rightarrow> string \<Rightarrow> rat" where
  "example_ratio a b =
     (if a = b then 1
      else case map_of
             [((''SuperWidget'', ''SuperWidgit''), 10 / 11),
              ((''Mega Bolt'', ''SuperWidgit''), 3 / 10),
              ((''Japan Tea'', ''SuperWidgit''), 1 / 5),
              ((''SW-1'', ''SuperWidgit''), 4 / 15),
              ((''SuperWidget'', ''Need  pcs of SuperWidget''), 22 / 35),
              ((''Mega Bolt'', ''Need  pcs of SuperWidget''), 2 / 11),
              ((''Japan Tea'', ''Need  pcs of SuperWidget''), 2 / 11),
              ((''SW-1'', ''Need  pcs of SuperWidget''), 1 / 7),
              ((''SuperWidget'', ''Mega Bolt''), 3 / 10),
              ((''Japan Tea'', ''Mega Bolt''), 2 / 9),
              ((''MB-22'', ''Mega Bolt''), 2 / 7),
              ((''Mega Bolt'', ''SuperWidget''), 3 / 10),
              ((''Japan Tea'', ''SuperWidget''), 1 / 5),
              ((''SW-1'', ''SuperWidget''), 4 / 15),
              ((''SuperWidget'', ''Japan Tea''), 1 / 5),
              ((''Mega Bolt'', ''Japan Tea''), 2 / 9),
              ((''JT-7'', ''Japan Tea''), 4 / 13),
              ((''SuperWidget'', ''Mega Bolt before''), 2 / 9),
              ((''Mega Bolt'', ''Mega Bolt before''), 18 / 25),
              ((''Japan Tea'', ''Mega Bolt before''), 6 / 25),
              ((''MB-22'', ''Mega Bolt before''), 4 / 21),
              ((''SuperWidget'', ''superwidget''), 9 / 11),
              ((''Mega Bolt'', ''superwidget''), 3 / 10),
              ((''Japan Tea'', ''superwidget''), 1 / 5),
              ((''SW-1'', ''mb-22''), 2 / 9),
              ((''MB-22'', ''mb-22''), 3 / 5),
              ((''JT-7'', ''mb-22''), 2 / 9)] (a, b) of
             Some v \<Rightarrow> v
           | None \<Rightarrow> 0)"

definition example_lib :: "unit lib" where
  "example_lib =
     \<lparr>ratio = example_ratio, parse = (\<lambda>s. None), search_dates = (\<lambda>s. []),
      strftime = (\<lambda>d fmt. []), now = (), int_max_str_digits = 4300\<rparr>"

definition three_lines :: "string list" where
  "three_lines = [''Need 10 pcs of SuperWidget'', ''hello'', ''7 zzz'']"

definition separators_line :: string where
  "separators_line = ''-:x* 12 Mega Bolt 7.,''"

definition long_digit_line :: string where
  "long_digit_line = ''Need '' @ replicate 4301 (CHR ''1'') @ '' pcs of SuperWidget''"

definition long_noise_line :: string where
  "long_noise_line = replicate 4301 (CHR ''3'') @ '' Mega Bolt before''"

definition two_lines :: string where
  "two_lines = ''5 Japan Tea'' @ [CHR 0x0A] @ ''3 Mega Bolt before''"

definition order_email :: "unit EmailContent" where
  "order_email =
     \<lparr>raw_content = ''Need 10 pcs of SuperWidget'' @ [CHR 0x0A] @ ''3 Mega Bolt before''
        @ [CHR 0x0A] @ ''7 zzz'',
      subject = None, sender = None, received_at = None, thread_id = None\<rparr>"

definition chat_email :: "unit EmailContent" where
  "chat_email =
     \<lparr>raw_content = ''Hello, thanks for the catalog'',
      subject = None, sender = None, received_at = None, thread_id = None\<rparr>"

definition no_stock_table :: DataFrame where
  "no_stock_table =
     [(''Product_Name'', [StrCell ''SuperWidget'', StrCell ''Mega Bolt'']),
      (''Product_Code'', [StrCell ''SW-1'', StrCell ''MB-22'']),
      (''Min_Order_Quantity'', [IntCell 20, IntCell 1]),
      (''Price'', [FloatCell 2, FloatCell 3])]"

definition no_name_table :: DataFrame where
  "no_name_table =
     [(''Product_Code'', [StrCell ''SW-1'', StrCell ''MB-22'']),
      (''Min_Order_Quantity'', [IntCell 20, IntCell 1]),
      (''Available_in_Stock'', [IntCell 5, IntCell 100]),
      (''Price'', [FloatCell 2, FloatCell 3])]"

definition no_colon_text :: string where
  "no_colon_text = ''Please ship to the warehouse'' @ [CHR 0x0A] @ ''42 Elm Street''"

definition scenario_c_text :: string where
  "scenario_c_text = ''Ship to: 123 Main Street, Springfield''"

definition ship_block_text :: string where
  "ship_block_text = ''Ship to:'' @ [CHR 0x0A] @ ''Bob'' @ [CHR 0x0A] @ ''42 Elm Street''"

definition ship_email_a :: "unit EmailContent" where
  "ship_email_a =
     \<lparr>raw_content = ''Ship to: Main Street, Springfield'' @ [CHR 0x0A] @ ''Notes: call first'',
      subject = None, sender = None, received_at = None, thread_id = None\<rparr>"

definition ship_email_b :: "unit EmailContent" where
  "ship_email_b =
     \<lparr>raw_content = ''Ship to: Elm Road, Shelbyville'' @ [CHR 0x0A] @ ''Notes: ring twice'',
      subject = None, sender = None, received_at = None, thread_id = None\<rparr>"

section \<open>Properties\<close>

subsection \<open>Exceptions and the conversions between integers and decimal text\<close>

lemma and_then_Inr [simp]: "and_then (Inr x) f = f x"
  by (simp add: and_then_def)

lemma and_then_Inl [simp]: "and_then (Inl e) f = Inl e"
  by (simp add: and_then_def)

lemma and_then_eq_Inr:
  "and_then m f = Inr y \<longleftrightarrow> (\<exists>x. m = Inr x \<and> f x = Inr y)"
  by (cases m) simp_all

lemma py_str_cases:
  "py_str L i = (if exceeds_limit L (length (str_nat (nat \<bar>i\<bar>))) then Inl ValueError else Inr (str_int i))"
  by (simp add: py_str_def)

lemma str_nat_nonempty: "str_nat n \<noteq> []"
  by (induction n rule: str_nat.induct) (subst str_nat.simps, simp)

lemma str_nat_long: "10 ^ k \<le> n \<Longrightarrow> k < length (str_nat n)"
proof (induction k arbitrary: n)
  case 0
  have "str_nat n \<noteq> []" by (rule str_nat_nonempty)
  then show ?case by (cases "str_nat n") auto
next
  case (Suc k)
  then have ge: "10 \<le> n" and div: "10 ^ k \<le> n div 10"
  proof -
    from Suc.prems have a: "10 * 10 ^ k \<le> n" by simp
    have b: "(1::nat) \<le> 10 ^ k" by simp
    from a b show "10 \<le> n" by linarith
    from a show "10 ^ k \<le> n div 10" by (simp add: less_eq_div_iff_mult_less_eq)
  qed
  from ge have "str_nat n = str_nat (n div 10) @ [char_of (48 + n mod 10)]"
    by (subst str_nat.simps) simp
  with Suc.IH [OF div] show ?case by simp
qed

lemma str_nat_short: "n < 10 ^ Suc k \<Longrightarrow> length (str_nat n) \<le> Suc k"
proof (induction k arbitrary: n)
  case 0
  then have "str_nat n = [char_of (48 + n)]" by (subst str_nat.simps) simp
  then show ?case by simp
next
  case (Suc k)
  show ?case
  proof (cases "n < 10")
    case True
    then have "str_nat n = [char_of (48 + n)]" by (subst str_nat.simps) simp
    then show ?thesis by simp
  next
    case False
    then have eq: "str_nat n = str_nat (n div 10) @ [char_of (48 + n mod 10)]"
      by (subst str_nat.simps) simp
    from Suc.prems have "n div 10 < 10 ^ Suc k"
      by (simp add: div_less_iff_less_mult mult.commute)
    from Suc.IH [OF this] eq show ?thesis by simp
  qed
qed

lemma exceeds_limit_mono: "exceeds_limit L m \<Longrightarrow> m \<le> n \<Longrightarrow> exceeds_limit L n"
  by (auto simp: exceeds_limit_def)

subsection \<open>Validation against the catalog\<close>

lemma moq_issue_eq:
  "moq_issue L q p =
     (if exceeds_limit L (length (str_nat (nat \<bar>q\<bar>)))
         \<or> exceeds_limit L (length (str_nat (nat \<bar>Min_Order_Quantity p\<bar>)))
      then Inl ValueError else Inr (moq_issue_text q p))"
  by (simp add: moq_issue_def py_str_def moq_issue_text_def)

lemma moq_suggestion_eq:
  "moq_suggestion L p =
     (if exceeds_limit L (length (str_nat (nat \<bar>Min_Order_Quantity p\<bar>)))
      then Inl ValueError else Inr (moq_suggestion_text p))"
  by (simp add: moq_suggestion_def py_str_def moq_suggestion_text_def)

lemma stock_issue_eq:
  "stock_issue L q p =
     (if exceeds_limit L (length (str_nat (nat \<bar>q\<bar>)))
         \<or> exceeds_limit L (length (str_nat (nat \<bar>Available_in_Stock p\<bar>)))
      then Inl ValueError else Inr (stock_issue_text q p))"
  by (simp add: stock_issue_def py_str_def stock_issue_text_def)

lemma stock_suggestion_eq:
  "stock_suggestion L p =
     (if exceeds_limit L (length (str_nat (nat \<bar>Available_in_Stock p\<bar>)))
      then Inl ValueError else Inr (stock_suggestion_text p))"
  by (simp add: stock_suggestion_def py_str_def stock_suggestion_text_def)

text \<open>Whether the formatting of the messages for \<open>p\<close> and \<open>q\<close> is refused.\<close>

lemma validate_present:
  "validate_against_catalog L cat (Some p) q =
     (if (q < Min_Order_Quantity p \<and>
            (exceeds_limit L (length (str_nat (nat \<bar>q\<bar>)))
             \<or> exceeds_limit L (length (str_nat (nat \<bar>Min_Order_Quantity p\<bar>)))))
         \<or> (q > Available_in_Stock p \<and>
            (exceeds_limit L (length (str_nat (nat \<bar>q\<bar>)))
             \<or> exceeds_limit L (length (str_nat (nat \<bar>Available_in_Stock p\<bar>)))))
      then Inl ValueError
      else Inr (\<not> q < Min_Order_Quantity p \<and> \<not> q > Available_in_Stock p,
        (if q < Min_Order_Quantity p then [moq_issue_text q p] else [])
          @ (if q > Available_in_Stock p then [stock_issue_text q p] else []),
        (if q < Min_Order_Quantity p then [moq_suggestion_text p] else [])
          @ (if q > Available_in_Stock p then [stock_suggestion_text p] else [])))"
  by (simp add: validate_against_catalog_def moq_issue_eq moq_suggestion_eq stock_issue_eq
      stock_suggestion_eq)

lemma validate_absent:
  "validate_against_catalog L cat None q = Inr (False, [''Product not found in catalog''], [])"
  by (simp add: validate_against_catalog_def)

lemma moq_issue_neq_stock_issue: "moq_issue_text q p \<noteq> stock_issue_text q' p'"
  by (simp add: moq_issue_text_def stock_issue_text_def)

lemma not_found_neq_moq_issue:
  "''Product not found in catalog'' \<noteq> moq_issue_text q p"
  "moq_issue_text q p \<noteq> ''Product not found in catalog''"
  by (simp_all add: moq_issue_text_def)

lemma not_found_neq_stock_issue:
  "''Product not found in catalog'' \<noteq> stock_issue_text q p"
  "stock_issue_text q p \<noteq> ''Product not found in catalog''"
  by (simp_all add: stock_issue_text_def)

lemma validate_present_Inr:
  assumes "validate_against_catalog L cat (Some p) q = Inr (ok, issues, suggestions)"
  shows "ok \<longleftrightarrow> \<not> q < Min_Order_Quantity p \<and> \<not> q > Available_in_Stock p"
    and "issues = (if q < Min_Order_Quantity p then [moq_issue_text q p] else [])
          @ (if q > Available_in_Stock p then [stock_issue_text q p] else [])"
    and "suggestions = (if q < Min_Order_Quantity p then [moq_suggestion_text p] else [])
          @ (if q > Available_in_Stock p then [stock_suggestion_text p] else [])"
  using assms unfolding validate_present by (simp_all split: if_splits)

lemma huge_quantity_raises:
  assumes "0 < int_max_str_digits L" "int_max_str_digits L \<le> k" "640 \<le> k"
    and "Available_in_Stock p < 100"
  shows "Available_in_Stock p < 10 ^ k \<and>
    validate_against_catalog L cat (Some p) (10 ^ k) = Inl ValueError"
proof -
  from assms(3) have "2 \<le> k" by simp
  then have "(10::int) ^ 2 \<le> 10 ^ k" by (intro power_increasing) simp_all
  then have "(100::int) \<le> 10 ^ k" by simp
  with assms(4) have gt: "Available_in_Stock p < 10 ^ k" by linarith
  have n: "nat \<bar>(10::int) ^ k\<bar> = 10 ^ k" by (simp add: nat_power_eq)
  have "k < length (str_nat (10 ^ k))" by (rule str_nat_long) simp
  with assms(1,2,3) have "exceeds_limit L (length (str_nat (nat \<bar>(10::int) ^ k\<bar>)))"
    unfolding n by (simp add: exceeds_limit_def)
  with gt have "validate_against_catalog L cat (Some p) (10 ^ k) = Inl ValueError"
    by (simp add: validate_present)
  with gt show ?thesis by simp
qed

text \<open>
  C3 as stated fails: a quantity of 4301 decimal digits is above the stock, and the
  validation raises \<^verbatim>\<open>ValueError\<close> when it formats the message instead of reporting an
  issue.
\<close>

theorem validate_huge_quantity_counterexample:
  "Available_in_Stock super_widget < 10 ^ 4300 \<and>
   validate_against_catalog example_lib [] (Some super_widget) (10 ^ 4300) = Inl ValueError"
  by (rule huge_quantity_raises) (simp_all add: example_lib_def super_widget_def)

text \<open>
  C3, amended. Where the validation of a product \<open>p\<close> and a quantity \<open>q\<close> returns, it
  reports the below-MOQ issue exactly when \<open>q < MOQ\<close>, the exceeds-stock issue exactly
  when \<open>q > stock\<close> (the two are independent, so both can be reported by one call), and
  is valid exactly when no issue was reported. It returns whenever the interpreter
  accepts to format \<open>q\<close>, the MOQ and the stock, that is when none has more decimal
  digits than the limit; the only exception it raises is \<^verbatim>\<open>ValueError\<close>, from that
  formatting. For an absent product it always returns, is invalid and reports exactly
  "Product not found in catalog", and so no MOQ or stock issue of any product and
  quantity.
\<close>

theorem validate_against_catalog_issues:
  "(validate_against_catalog L cat (Some p) q = Inr (ok, issues, suggestions) \<longrightarrow>
      (moq_issue_text q p \<in> set issues \<longleftrightarrow> q < Min_Order_Quantity p) \<and>
      (stock_issue_text q p \<in> set issues \<longleftrightarrow> q > Available_in_Stock p) \<and>
      set issues \<subseteq> {moq_issue_text q p, stock_issue_text q p} \<and>
      (ok \<longleftrightarrow> issues = [])) \<and>
   (\<not> exceeds_limit L (length (str_nat (nat \<bar>q\<bar>))) \<and>
    \<not> exceeds_limit L (length (str_nat (nat \<bar>Min_Order_Quantity p\<bar>))) \<and>
    \<not> exceeds_limit L (length (str_nat (nat \<bar>Available_in_Stock p\<bar>))) \<longrightarrow>
      (\<exists>r. validate_against_catalog L cat (Some p) q = Inr r)) \<and>
   (\<forall>e. validate_against_catalog L cat product q = Inl e \<longrightarrow> e = ValueError \<and> product \<noteq> None) \<and>
   validate_against_catalog L cat None q = Inr (False, [''Product not found in catalog''], []) \<and>
   (validate_against_catalog L cat None q = Inr (ok, issues, suggestions) \<longrightarrow>
      \<not> ok \<and> issues = [''Product not found in catalog''] \<and>
      (\<forall>q' p'. moq_issue_text q' p' \<notin> set issues \<and> stock_issue_text q' p' \<notin> set issues))"
proof (intro conjI impI allI)
  assume v: "validate_against_catalog L cat (Some p) q = Inr (ok, issues, suggestions)"
  have ne: "moq_issue_text q p \<noteq> stock_issue_text q p" "stock_issue_text q p \<noteq> moq_issue_text q p"
    using moq_issue_neq_stock_issue [of q p q p] by auto
  note ok = validate_present_Inr(1) [OF v] and issues = validate_present_Inr(2) [OF v]
  show "moq_issue_text q p \<in> set issues \<longleftrightarrow> q < Min_Order_Quantity p"
    using ne by (simp add: issues)
  show "stock_issue_text q p \<in> set issues \<longleftrightarrow> q > Available_in_Stock p"
    using ne by (simp add: issues)
  show "set issues \<subseteq> {moq_issue_text q p, stock_issue_text q p}"
    by (auto simp: issues)
  show "ok \<longleftrightarrow> issues = []"
    by (simp add: ok issues)
next
  assume "\<not> exceeds_limit L (length (str_nat (nat \<bar>q\<bar>))) \<and>
    \<not> exceeds_limit L (length (str_nat (nat \<bar>Min_Order_Quantity p\<bar>))) \<and>
    \<not> exceeds_limit L (length (str_nat (nat \<bar>Available_in_Stock p\<bar>)))"
  then show "\<exists>r. validate_against_catalog L cat (Some p) q = Inr r"
    unfolding validate_present by simp
next
  fix e assume e: "validate_against_catalog L cat product q = Inl e"
  show "e = ValueError"
  proof (cases product)
    case None
    with e show ?thesis by (simp add: validate_absent)
  next
    case (Some p')
    with e show ?thesis by (simp add: validate_present split: if_splits)
  qed
  from e show "product \<noteq> None" by (cases product) (simp_all add: validate_absent)
next
  show "validate_against_catalog L cat None q = Inr (False, [''Product not found in catalog''], [])"
    by (rule validate_absent)
next
  assume v: "validate_against_catalog L cat None q = Inr (ok, issues, suggestions)"
  then show "\<not> ok" by (simp add: validate_absent)
  from v show "issues = [''Product not found in catalog'']" by (simp add: validate_absent)
  then show "moq_issue_text q' p' \<notin> set issues" for q' p'
    by (simp add: not_found_neq_moq_issue)
  from \<open>issues = [''Product not found in catalog'']\<close>
  show "stock_issue_text q' p' \<notin> set issues" for q' p'
    by (simp add: not_found_neq_stock_issue)
qed

theorem validate_against_catalog_issues_witness:
  "validate_against_catalog example_lib [] (Some super_widget) 10 =
     Inr (False,
      [''Quantity 10 is below MOQ of 20 for SuperWidget'',
       ''Requested quantity 10 exceeds available stock of 5 for SuperWidget''],
      [''Increase quantity to 20'', ''Reduce quantity to 5'']) \<and>
   moq_issue_text 10 super_widget = ''Quantity 10 is below MOQ of 20 for SuperWidget'' \<and>
   stock_issue_text 10 super_widget =
     ''Requested quantity 10 exceeds available stock of 5 for SuperWidget'' \<and>
   10 < Min_Order_Quantity super_widget \<and> 10 > Available_in_Stock super_widget \<and>
   (\<exists>r. validate_against_catalog example_lib [] (Some mega_bolt) 3 = Inr r) \<and>
   validate_against_catalog example_lib [] (Some super_widget) (10 ^ 4300) = Inl ValueError \<and>
   validate_against_catalog example_lib [] None 10 =
     Inr (False, [''Product not found in catalog''], []) \<and>
   moq_issue_text 10 super_widget \<notin> set [''Product not found in catalog'']"
proof -
  let ?issues = "[''Quantity 10 is below MOQ of 20 for SuperWidget'',
       ''Requested quantity 10 exceeds available stock of 5 for SuperWidget'']"
  let ?sugg = "[''Increase quantity to 20'', ''Reduce quantity to 5'']"
  have e1: "validate_against_catalog example_lib [] (Some super_widget) 10
      = Inr (False, ?issues, ?sugg)"
    by code_simp
  have m: "moq_issue_text 10 super_widget = ''Quantity 10 is below MOQ of 20 for SuperWidget''"
    by code_simp
  have s: "stock_issue_text 10 super_widget =
      ''Requested quantity 10 exceeds available stock of 5 for SuperWidget''"
    by code_simp
  note t = validate_against_catalog_issues [of example_lib "[]" super_widget 10 False _ _ None]
  from t [of ?issues ?sugg, THEN conjunct1, THEN mp, OF e1]
  have a: "10 < Min_Order_Quantity super_widget" "10 > Available_in_Stock super_widget"
    unfolding m s by simp_all
  note e2 = t [of "[''Product not found in catalog'']" "[]", THEN conjunct2, THEN conjunct2,
      THEN conjunct2, THEN conjunct1]
  from t [of "[''Product not found in catalog'']" "[]", THEN conjunct2, THEN conjunct2,
      THEN conjunct2, THEN conjunct2, THEN mp, OF e2]
  have b: "moq_issue_text 10 super_widget \<notin> set [''Product not found in catalog'']"
    by blast
  have "\<not> exceeds_limit example_lib (length (str_nat (nat \<bar>3\<bar>))) \<and>
    \<not> exceeds_limit example_lib (length (str_nat (nat \<bar>Min_Order_Quantity mega_bolt\<bar>))) \<and>
    \<not> exceeds_limit example_lib (length (str_nat (nat \<bar>Available_in_Stock mega_bolt\<bar>)))"
    by code_simp
  from validate_against_catalog_issues [of example_lib "[]" mega_bolt 3, THEN conjunct2,
      THEN conjunct1, THEN mp, OF this]
  have r: "\<exists>r. validate_against_catalog example_lib [] (Some mega_bolt) 3 = Inr r" .
  have h: "validate_against_catalog example_lib [] (Some super_widget) (10 ^ 4300) = Inl ValueError"
    by (rule huge_quantity_raises [THEN conjunct2]) (simp_all add: example_lib_def super_widget_def)
  from validate_against_catalog_issues [of example_lib "[]" _ "10 ^ 4300" _ _ _ "Some super_widget",
      THEN conjunct2, THEN conjunct2, THEN conjunct1, THEN spec, THEN mp, OF h]
  have "ValueError = ValueError \<and> Some super_widget \<noteq> None" .
  from e1 m s a r h e2 b show ?thesis by (intro conjI)
qed

subsection \<open>The fuzzy matcher with \<open>n = 1\<close>\<close>

lemma sorted_last_max: "sorted xs \<Longrightarrow> x \<in> set xs \<Longrightarrow> x \<le> last xs"
  by (induction xs) auto

lemma nlargest_one_nonempty:
  assumes "R \<noteq> []"
  shows "\<exists>m. nlargest 1 R = [m] \<and> m \<in> set R \<and> (\<forall>x \<in> set R. x \<le> m)"
proof -
  let ?S = "sort R"
  from assms have ne: "?S \<noteq> []" by (metis length_0_conv length_sort)
  then obtain ys y where S: "?S = ys @ [y]" by (cases ?S rule: rev_cases) auto
  have a: "nlargest 1 R = [last ?S]" unfolding nlargest_def S by simp
  have b: "last ?S \<in> set R" using ne last_in_set by (metis set_sort)
  have c: "\<forall>x \<in> set R. x \<le> last ?S"
    using sorted_last_max [of ?S] by simp
  from a b c show ?thesis by blast
qed

lemma get_close_matches_one_none:
  assumes "\<forall>x \<in> set ps. rt x w < c"
  shows "get_close_matches rt w ps 1 c = []"
proof -
  have "filter (\<lambda>x. rt x w \<ge> c) ps = []" using assms by (auto simp: filter_empty_conv)
  then show ?thesis by (simp add: get_close_matches_def nlargest_def)
qed

lemma get_close_matches_one_best:
  assumes "\<exists>x \<in> set ps. c \<le> rt x w"
  shows "\<exists>b. get_close_matches rt w ps 1 c = [b] \<and> b \<in> set ps \<and> c \<le> rt b w
            \<and> (\<forall>x \<in> set ps. rt x w \<le> rt b w)"
proof -
  let ?R = "map (\<lambda>x. (rt x w, x)) (filter (\<lambda>x. rt x w \<ge> c) ps)"
  from assms have "?R \<noteq> []" by (auto simp: filter_empty_conv)
  from nlargest_one_nonempty [OF this] obtain m where
    m: "nlargest 1 ?R = [m]" "m \<in> set ?R" "\<forall>x \<in> set ?R. x \<le> m" by blast
  from m(2) obtain b where b: "m = (rt b w, b)" "b \<in> set ps" "c \<le> rt b w" by auto
  have "rt x w \<le> rt b w" if "x \<in> set ps" for x
  proof (cases "c \<le> rt x w")
    case True
    with that have "(rt x w, x) \<in> set ?R" by auto
    with m(3) b(1) have "(rt x w, x) \<le> (rt b w, b)" by blast
    then show ?thesis by (auto simp: less_eq_prod_def)
  next
    case False
    with b(3) show ?thesis by simp
  qed
  moreover have "get_close_matches rt w ps 1 c = [b]"
    using m(1) b(1) by (simp add: get_close_matches_def)
  ultimately show ?thesis using b by blast
qed

subsection \<open>Catalog lookup\<close>

lemma filter_case_find:
  "(case filter P xs of [] \<Rightarrow> None | x # _ \<Rightarrow> Some x) = List.find P xs"
  by (induction xs) auto

lemma find_product_unfold:
  "find_product L cat phrase =
     (case List.find (\<lambda>r. lower (Product_Name r) = lower phrase) cat of
        Some r \<Rightarrow> Some r
      | None \<Rightarrow>
     (case List.find (\<lambda>r. lower (Product_Code r) = lower phrase) cat of
        Some r \<Rightarrow> Some r
      | None \<Rightarrow>
     (case get_close_matches (ratio L) phrase (map Product_Name cat @ map Product_Code cat) 1 (4 / 5) of
        [] \<Rightarrow> None
      | m # _ \<Rightarrow> List.find (\<lambda>r. Product_Name r = m \<or> Product_Code r = m) cat)))"
  unfolding find_product_def Let_def
  by (simp add: filter_case_find [symmetric] split: list.splits)

lemma find_owner:
  assumes "b \<in> set (map Product_Name cat @ map Product_Code cat)"
  shows "\<exists>r. List.find (\<lambda>r. Product_Name r = b \<or> Product_Code r = b) cat = Some r"
proof -
  from assms have "\<exists>r \<in> set cat. Product_Name r = b \<or> Product_Code r = b" by auto
  then show ?thesis
    by (cases "List.find (\<lambda>r. Product_Name r = b \<or> Product_Code r = b) cat")
      (auto simp: find_None_iff)
qed

text \<open>
  C2. \<open>find_product\<close> returns the first product whose name equals the phrase without
  regard to case, if there is one; otherwise the first product whose code does, if there
  is one; otherwise, if some name or code of the catalog has similarity at least 0.8 to
  the phrase, the first product whose name or code is the best-scoring such string;
  otherwise nothing.
\<close>

theorem find_product_cases:
  "(\<forall>r. List.find (\<lambda>r. lower (Product_Name r) = lower phrase) cat = Some r
        \<longrightarrow> find_product L cat phrase = Some r) \<and>
   (List.find (\<lambda>r. lower (Product_Name r) = lower phrase) cat = None \<longrightarrow>
      (\<forall>r. List.find (\<lambda>r. lower (Product_Code r) = lower phrase) cat = Some r
          \<longrightarrow> find_product L cat phrase = Some r)) \<and>
   (List.find (\<lambda>r. lower (Product_Name r) = lower phrase) cat = None \<and>
    List.find (\<lambda>r. lower (Product_Code r) = lower phrase) cat = None \<longrightarrow>
      ((\<exists>s \<in> set (map Product_Name cat @ map Product_Code cat). ratio L s phrase \<ge> 4 / 5) \<longrightarrow>
         (\<exists>best r. best \<in> set (map Product_Name cat @ map Product_Code cat)
            \<and> ratio L best phrase \<ge> 4 / 5
            \<and> (\<forall>s \<in> set (map Product_Name cat @ map Product_Code cat).
                  ratio L s phrase \<le> ratio L best phrase)
            \<and> List.find (\<lambda>r. Product_Name r = best \<or> Product_Code r = best) cat = Some r
            \<and> find_product L cat phrase = Some r)) \<and>
      ((\<forall>s \<in> set (map Product_Name cat @ map Product_Code cat). ratio L s phrase < 4 / 5) \<longrightarrow>
         find_product L cat phrase = None))"
proof (intro conjI allI impI)
  fix r assume "List.find (\<lambda>r. lower (Product_Name r) = lower phrase) cat = Some r"
  then show "find_product L cat phrase = Some r" by (simp add: find_product_unfold)
next
  fix r assume "List.find (\<lambda>r. lower (Product_Name r) = lower phrase) cat = None"
    "List.find (\<lambda>r. lower (Product_Code r) = lower phrase) cat = Some r"
  then show "find_product L cat phrase = Some r" by (simp add: find_product_unfold)
next
  let ?all = "map Product_Name cat @ map Product_Code cat"
  assume none: "List.find (\<lambda>r. lower (Product_Name r) = lower phrase) cat = None \<and>
    List.find (\<lambda>r. lower (Product_Code r) = lower phrase) cat = None"
  assume "\<exists>s \<in> set ?all. ratio L s phrase \<ge> 4 / 5"
  from get_close_matches_one_best [of ?all "4 / 5" "ratio L" phrase, OF this] obtain b where
    b: "get_close_matches (ratio L) phrase ?all 1 (4 / 5) = [b]" "b \<in> set ?all"
       "4 / 5 \<le> ratio L b phrase" "\<forall>x \<in> set ?all. ratio L x phrase \<le> ratio L b phrase"
    by blast
  from find_owner [OF b(2)] obtain r where
    r: "List.find (\<lambda>r. Product_Name r = b \<or> Product_Code r = b) cat = Some r" by blast
  have "find_product L cat phrase = Some r"
    using none b(1) r by (simp add: find_product_unfold)
  with b r show "\<exists>best r. best \<in> set ?all \<and> ratio L best phrase \<ge> 4 / 5
            \<and> (\<forall>s \<in> set ?all. ratio L s phrase \<le> ratio L best phrase)
            \<and> List.find (\<lambda>r. Product_Name r = best \<or> Product_Code r = best) cat = Some r
            \<and> find_product L cat phrase = Some r"
    by blast
next
  let ?all = "map Product_Name cat @ map Product_Code cat"
  assume none: "List.find (\<lambda>r. lower (Product_Name r) = lower phrase) cat = None \<and>
    List.find (\<lambda>r. lower (Product_Code r) = lower phrase) cat = None"
  assume "\<forall>s \<in> set ?all. ratio L s phrase < 4 / 5"
  from get_close_matches_one_none [of ?all "ratio L" phrase "4 / 5", OF this]
  show "find_product L cat phrase = None"
    using none by (simp add: find_product_unfold)
qed

theorem find_product_cases_witness:
  "find_product example_lib [super_widget, mega_bolt] ''superwidget'' = Some super_widget \<and>
   find_product example_lib [super_widget, mega_bolt] ''mb-22'' = Some mega_bolt \<and>
   ratio example_lib ''SuperWidget'' ''SuperWidgit'' \<ge> 4 / 5 \<and>
   find_product example_lib [super_widget, mega_bolt] ''SuperWidgit'' = Some super_widget \<and>
   find_product example_lib [super_widget, mega_bolt] ''zzz'' = None"
proof -
  let ?cat = "[super_widget, mega_bolt]"
  note t = find_product_cases [of _ ?cat example_lib]
  have n1: "List.find (\<lambda>r. lower (Product_Name r) = lower ''superwidget'') ?cat = Some super_widget"
    by code_simp
  have c1: "find_product example_lib ?cat ''superwidget'' = Some super_widget"
    using t [of "''superwidget''", THEN conjunct1, rule_format, OF n1] .
  have n2: "List.find (\<lambda>r. lower (Product_Name r) = lower ''mb-22'') ?cat = None"
    "List.find (\<lambda>r. lower (Product_Code r) = lower ''mb-22'') ?cat = Some mega_bolt"
    by code_simp+
  have c2: "find_product example_lib ?cat ''mb-22'' = Some mega_bolt"
    using t [of "''mb-22''", THEN conjunct2, THEN conjunct1, rule_format, OF n2] .
  have n3: "List.find (\<lambda>r. lower (Product_Name r) = lower ''SuperWidgit'') ?cat = None \<and>
    List.find (\<lambda>r. lower (Product_Code r) = lower ''SuperWidgit'') ?cat = None"
    by code_simp
  have r3: "ratio example_lib ''SuperWidget'' ''SuperWidgit'' \<ge> 4 / 5" by code_simp
  have e3: "\<exists>s \<in> set (map Product_Name ?cat @ map Product_Code ?cat).
       ratio example_lib s ''SuperWidgit'' \<ge> 4 / 5"
    by code_simp
  from t [of "''SuperWidgit''", THEN conjunct2, THEN conjunct2, THEN mp, OF n3,
      THEN conjunct1, THEN mp, OF e3]
  obtain r where "find_product example_lib ?cat ''SuperWidgit'' = Some r" by blast
  moreover have "find_product example_lib ?cat ''SuperWidgit'' \<in> {None, Some super_widget}"
    by code_simp
  ultimately have c3: "find_product example_lib ?cat ''SuperWidgit'' = Some super_widget"
    by simp
  have n4: "List.find (\<lambda>r. lower (Product_Name r) = lower ''zzz'') ?cat = None \<and>
    List.find (\<lambda>r. lower (Product_Code r) = lower ''zzz'') ?cat = None"
    by code_simp
  have a4: "\<forall>s \<in> set (map Product_Name ?cat @ map Product_Code ?cat). ratio example_lib s ''zzz'' < 4 / 5"
    by code_simp
  have c4: "find_product example_lib ?cat ''zzz'' = None"
    using t [of "''zzz''", THEN conjunct2, THEN conjunct2, THEN mp, OF n4,
      THEN conjunct2, THEN mp, OF a4] .
  from c1 c2 r3 c3 c4 show ?thesis by (intro conjI)
qed

subsection \<open>The product-line extractor\<close>

lemma splitlines_acc_line:
  "(\<forall>c \<in> set l. \<not> is_linebreak c) \<Longrightarrow> splitlines_acc cur (l @ rest) = splitlines_acc (rev l @ cur) rest"
  by (induction l arbitrary: cur) simp_all

lemma is_linebreak_LF: "is_linebreak (CHR 0x0A)"
  by code_simp

lemma is_linebreak_CR: "is_linebreak (CHR 0x0D)"
  by code_simp

lemma join_nonempty: "ls \<noteq> [] \<Longrightarrow> last ls \<noteq> [] \<Longrightarrow> join sep ls \<noteq> []"
  by (induction sep ls rule: join.induct) auto

lemma join_first:
  assumes "ls \<noteq> []" "last ls \<noteq> []" "\<forall>l \<in> set ls. \<forall>c \<in> set l. \<not> is_linebreak c"
    and "sep \<noteq> []"
  shows "hd (join sep ls) = hd sep \<or> \<not> is_linebreak (hd (join sep ls))"
proof (cases ls)
  case Nil
  with assms(1) show ?thesis by simp
next
  case (Cons l ls')
  show ?thesis
  proof (cases l)
    case Nil
    with Cons assms(2) obtain l' ls'' where "ls' = l' # ls''" by (cases ls') auto
    with Cons Nil assms(4) show ?thesis by simp
  next
    case (Cons c cs)
    with \<open>ls = l # ls'\<close> assms(3) have "\<not> is_linebreak c" by simp
    moreover from Cons \<open>ls = l # ls'\<close> have "hd (join sep ls) = c" by (cases ls') simp_all
    ultimately show ?thesis by simp
  qed
qed

lemma splitlines_acc_terminator:
  assumes "(\<exists>c. sep = [c] \<and> is_linebreak c) \<or> sep = [CHR 0x0D, CHR 0x0A]"
    and "rest \<noteq> []" "hd rest = hd sep \<or> \<not> is_linebreak (hd rest)"
  shows "splitlines_acc cur (sep @ rest) = rev cur # splitlines_acc [] rest"
proof -
  from assms(2) obtain d ds where rest: "rest = d # ds" by (cases rest) auto
  from assms(1) show ?thesis
  proof
    assume "\<exists>c. sep = [c] \<and> is_linebreak c"
    then obtain c where c: "sep = [c]" "is_linebreak c" by blast
    with assms(3) rest have "d = c \<or> \<not> is_linebreak d" by simp
    then have "\<not> (c = CHR 0x0D \<and> d = CHR 0x0A)" using is_linebreak_LF by auto
    with c rest show ?thesis by auto
  next
    assume "sep = [CHR 0x0D, CHR 0x0A]"
    then show ?thesis using is_linebreak_CR by simp
  qed
qed

lemma splitlines_acc_join:
  assumes "(\<exists>c. sep = [c] \<and> is_linebreak c) \<or> sep = [CHR 0x0D, CHR 0x0A]"
    and "ls \<noteq> []" "last ls \<noteq> []" "\<forall>l \<in> set ls. \<forall>c \<in> set l. \<not> is_linebreak c"
  shows "splitlines_acc cur (join sep ls) = (rev cur @ hd ls) # tl ls"
  using assms(2-)
proof (induction ls arbitrary: cur)
  case Nil
  then show ?case by simp
next
  case (Cons l ls)
  from assms(1) have sep: "sep \<noteq> []" by auto
  show ?case
  proof (cases ls)
    case Nil
    with Cons.prems have l: "l \<noteq> []" "\<forall>c \<in> set l. \<not> is_linebreak c" by simp_all
    from splitlines_acc_line [OF l(2), of cur "[]"] l(1) Nil show ?thesis by simp
  next
    case (Cons l' ls')
    with Cons.prems have ne: "ls \<noteq> []" "last ls \<noteq> []"
      and nb: "\<forall>l \<in> set ls. \<forall>c \<in> set l. \<not> is_linebreak c"
      and l: "\<forall>c \<in> set l. \<not> is_linebreak c" by simp_all
    have "join sep (l # ls) = l @ sep @ join sep ls"
      using Cons by simp
    then have "splitlines_acc cur (join sep (l # ls))
        = splitlines_acc (rev l @ cur) (sep @ join sep ls)"
      using splitlines_acc_line [OF l] by simp
    also have "\<dots> = rev (rev l @ cur) # splitlines_acc [] (join sep ls)"
      by (rule splitlines_acc_terminator [OF assms(1) join_nonempty [OF ne] join_first [OF ne nb sep]])
    also have "splitlines_acc [] (join sep ls) = hd ls # tl ls"
      using Cons.IH [OF ne nb, of "[]"] by simp
    finally show ?thesis using ne(1) by simp
  qed
qed

lemma splitlines_join:
  assumes "(\<exists>c. sep = [c] \<and> is_linebreak c) \<or> sep = [CHR 0x0D, CHR 0x0A]"
    and "\<forall>l \<in> set ls. \<forall>c \<in> set l. \<not> is_linebreak c" "ls \<noteq> [] \<longrightarrow> last ls \<noteq> []"
  shows "splitlines (join sep ls) = ls"
proof (cases ls)
  case Nil
  then show ?thesis by (simp add: splitlines_def)
next
  case (Cons l ls')
  with assms have "ls \<noteq> []" "last ls \<noteq> []" by simp_all
  from splitlines_acc_join [OF assms(1) this assms(2), of "[]"] Cons show ?thesis
    by (simp add: splitlines_def)
qed

lemma first_digit_run_none:
  assumes "\<forall>c \<in> set line. \<not> isdigit c"
  shows "first_digit_run line = None"
proof -
  from assms have *: "dropWhile (\<lambda>c. \<not> isdigit c) line = []" by (simp add: dropWhile_eq_Nil_conv)
  show ?thesis unfolding first_digit_run_def * by simp
qed

lemma first_digit_run_some:
  assumes "line = pre @ ds @ post" "\<forall>c \<in> set pre. \<not> isdigit c" "ds \<noteq> []"
    "\<forall>c \<in> set ds. isdigit c" "post = [] \<or> \<not> isdigit (hd post)"
  shows "first_digit_run line = Some ds"
proof -
  from assms(3) obtain d ds' where ds: "ds = d # ds'" by (cases ds) auto
  with assms(4) have d: "isdigit d" by simp
  have "dropWhile (\<lambda>c. \<not> isdigit c) line = ds @ post"
    using assms(1,2) ds d by (simp add: dropWhile_append3)
  moreover have "takeWhile isdigit (ds @ post) = ds"
    using assms(4,5) by (cases post) (auto simp: takeWhile_append2 takeWhile_eq_all_conv)
  ultimately show ?thesis by (simp add: first_digit_run_def ds)
qed

lemma first_digit_run_digits:
  assumes "first_digit_run line = Some ds"
  shows "ds \<noteq> [] \<and> (\<forall>c \<in> set ds. isdigit c)"
proof -
  from assms obtain c cs where dw: "dropWhile (\<lambda>c. \<not> isdigit c) line = c # cs"
    and ds: "ds = takeWhile isdigit (c # cs)"
    by (auto simp: first_digit_run_def split: list.splits)
  from dw have "isdigit c" using hd_dropWhile [of "\<lambda>c. \<not> isdigit c" line] by simp
  with ds have "ds \<noteq> []" by simp
  moreover from ds have "\<forall>c \<in> set ds. isdigit c" by (auto dest: set_takeWhileD)
  ultimately show ?thesis by blast
qed

lemma find_product_of_name:
  assumes "b \<in> set (map Product_Name cat)"
  shows "\<exists>r. List.find (\<lambda>r. lower (Product_Name r) = lower b) cat = Some r
           \<and> find_product L cat b = Some r"
proof -
  from assms have "\<exists>r \<in> set cat. lower (Product_Name r) = lower b" by auto
  then obtain r where "List.find (\<lambda>r. lower (Product_Name r) = lower b) cat = Some r"
    by (cases "List.find (\<lambda>r. lower (Product_Name r) = lower b) cat") (auto simp: find_None_iff)
  then show ?thesis by (simp add: find_product_unfold)
qed

lemma match_line_no_digit:
  "first_digit_run line = None \<Longrightarrow> match_line L cat line = Inr None"
  by (simp add: match_line_def)

lemma match_line_too_long:
  "first_digit_run line = Some ds \<Longrightarrow> exceeds_limit L (length ds)
     \<Longrightarrow> match_line L cat line = Inl ValueError"
  by (simp add: match_line_def py_int_def)

lemma match_line_parsed:
  assumes "first_digit_run line = Some ds" "\<not> exceeds_limit L (length ds)"
  shows "match_line L cat line =
     (case get_close_matches (ratio L) (strip_chars is_separator (remove_digit_runs line))
             (map Product_Name cat) 1 (3 / 5) of
        b # _ \<Rightarrow> Inr (Some (find_product L cat b, decimal_value ds, 1, b))
      | [] \<Rightarrow> Inr (Some (None, decimal_value ds, 1 / 2,
                 strip_chars is_separator (remove_digit_runs line))))"
  using assms by (simp add: match_line_def py_int_def Let_def)

lemma match_line_error: "match_line L cat line = Inl e \<Longrightarrow> e = ValueError"
  by (auto simp: match_line_def py_int_def Let_def and_then_def
      split: option.splits if_splits list.splits)

lemma extract_line_unfold:
  "extract_line L cat line =
     (case match_line L cat line of
        Inl e \<Rightarrow> Inl e
      | Inr None \<Rightarrow> Inr None
      | Inr (Some entry) \<Rightarrow>
          if is_noise (snd (snd (snd entry))) then Inr None else Inr (Some entry))"
  by (simp add: extract_line_def and_then_def split: sum.splits option.splits prod.splits)

lemma extract_line_error: "extract_line L cat line = Inl e \<Longrightarrow> e = ValueError"
  by (auto simp: extract_line_unfold dest: match_line_error split: sum.splits option.splits if_splits)

lemma extract_loop_eq:
  "extract_loop L cat lines acc =
     (if \<exists>line \<in> set lines. extract_line L cat line = Inl ValueError then Inl ValueError
      else Inr (acc @ List.map_filter
                  (\<lambda>line. case extract_line L cat line of Inr r \<Rightarrow> r | Inl e \<Rightarrow> None) lines))"
proof (induction lines arbitrary: acc)
  case Nil
  then show ?case by (simp add: List.map_filter_simps)
next
  case (Cons line lines)
  show ?case
  proof (cases "extract_line L cat line")
    case (Inl e)
    with extract_line_error [OF this] show ?thesis by simp
  next
    case (Inr r)
    then show ?thesis
      by (cases r) (simp_all add: Cons.IH List.map_filter_simps)
  qed
qed

lemma digit_chars: "map char_of [48 :: nat, 49, 50, 51, 52, 53, 54, 55, 56, 57] = ''0123456789''"
  by code_simp

lemma isdigit_set: "isdigit c \<longleftrightarrow> c \<in> set ''0123456789''"
proof
  assume "isdigit c"
  then have "48 \<le> (of_char c :: nat)" "(of_char c :: nat) \<le> 57"
    by (simp_all add: isdigit_def less_eq_char_def)
  then have "(of_char c :: nat) = 48 \<or> (of_char c :: nat) = 49 \<or> (of_char c :: nat) = 50
      \<or> (of_char c :: nat) = 51 \<or> (of_char c :: nat) = 52 \<or> (of_char c :: nat) = 53
      \<or> (of_char c :: nat) = 54 \<or> (of_char c :: nat) = 55 \<or> (of_char c :: nat) = 56
      \<or> (of_char c :: nat) = 57"
    by arith
  then have "(of_char c :: nat) \<in> set [48, 49, 50, 51, 52, 53, 54, 55, 56, 57]" by simp
  then have "char_of (of_char c :: nat) \<in> set (map char_of [48 :: nat, 49, 50, 51, 52, 53, 54, 55, 56, 57])"
    unfolding set_map by (rule imageI)
  then show "c \<in> set ''0123456789''" unfolding digit_chars by simp
next
  assume "c \<in> set ''0123456789''"
  then show "isdigit c" by (auto simp: isdigit_def less_eq_char_def)
qed

lemma is_separator_set: "is_separator c \<longleftrightarrow> c \<in> set '' -:x*.,''"
  by (simp add: is_separator_def)

lemma strip_chars_trims:
  "\<exists>a b. s = a @ strip_chars P s @ b \<and> (\<forall>c \<in> set a. P c) \<and> (\<forall>c \<in> set b. P c)
     \<and> (strip_chars P s \<noteq> [] \<longrightarrow> \<not> P (hd (strip_chars P s)) \<and> \<not> P (last (strip_chars P s)))"
proof -
  let ?m = "dropWhile P s"
  let ?r = "dropWhile P (rev ?m)"
  have s: "s = takeWhile P s @ ?m" by simp
  have "rev ?r @ rev (takeWhile P (rev ?m)) = rev (takeWhile P (rev ?m) @ ?r)"
    by (simp only: rev_append)
  also have "\<dots> = rev (rev ?m)" by (simp only: takeWhile_dropWhile_id)
  also have "\<dots> = ?m" by (rule rev_rev_ident)
  finally have m: "?m = rev ?r @ rev (takeWhile P (rev ?m))" by (rule sym)
  have e: "strip_chars P s = rev ?r" by (simp add: strip_chars_def)
  have 1: "s = takeWhile P s @ strip_chars P s @ rev (takeWhile P (rev ?m))"
    using s m e by metis
  have 2: "\<forall>c \<in> set (takeWhile P s). P c" by (auto dest: set_takeWhileD)
  have 3: "\<forall>c \<in> set (rev (takeWhile P (rev ?m))). P c" by (auto dest: set_takeWhileD)
  have 4: "\<not> P (hd (strip_chars P s)) \<and> \<not> P (last (strip_chars P s))" if ne: "strip_chars P s \<noteq> []"
  proof -
    from ne e have r: "?r \<noteq> []" by simp
    then have "\<not> P (hd ?r)" by (rule hd_dropWhile)
    with r e have l: "\<not> P (last (strip_chars P s))" by (simp add: last_rev)
    have mne: "?m \<noteq> []"
    proof
      assume "?m = []"
      then have "?r = []" by (simp only: rev.simps dropWhile.simps)
      with r show False by (rule notE)
    qed
    then have h: "\<not> P (hd ?m)" by (rule hd_dropWhile)
    from m r have "hd ?m = hd (rev ?r)" by (metis hd_append rev_is_Nil_conv)
    with h e have "\<not> P (hd (strip_chars P s))" by simp
    with l show ?thesis by simp
  qed
  from 1 2 3 4 show ?thesis by blast
qed

lemma decimal_value_snoc: "decimal_value (ds @ [d]) = 10 * decimal_value ds + digit_val d"
  by (simp add: decimal_value_def)

lemma digit_values: "map digit_val ''0123456789'' = [0, 1, 2, 3, 4, 5, 6, 7, 8, 9]"
  by code_simp

lemma splitlines_single:
  assumes "l \<noteq> []" "\<forall>c \<in> set l. \<not> is_linebreak c"
  shows "splitlines l = [l]"
  using splitlines_join [of "[CHR 0x0A]" "[l]"] assms is_linebreak_LF by simp

lemma long_run_first_digit_run:
  assumes "\<forall>c \<in> set pre. \<not> isdigit c" "isdigit d" "0 < n" "post = [] \<or> \<not> isdigit (hd post)"
  shows "first_digit_run (pre @ replicate n d @ post) = Some (replicate n d)"
  using first_digit_run_some [of "pre @ replicate n d @ post" pre "replicate n d" post] assms
  by simp

lemma long_run_removed:
  "isdigit d \<Longrightarrow> remove_digit_runs (pre @ replicate n d @ post) = remove_digit_runs (pre @ post)"
  by (simp add: remove_digit_runs_def)

lemma contains_append: "contains sub s \<Longrightarrow> contains sub (pre @ s)"
  by (induction pre) simp_all

lemma long_run_raises:
  assumes "\<forall>c \<in> set pre. \<not> isdigit c" "isdigit d" "post = [] \<or> \<not> isdigit (hd post)"
    and "exceeds_limit L n"
    and "\<forall>c \<in> set (pre @ d # post). \<not> is_linebreak c"
  shows "match_line L cat (pre @ replicate n d @ post) = Inl ValueError
       \<and> extract_products_and_quantities L cat (pre @ replicate n d @ post) = Inl ValueError"
proof -
  let ?line = "pre @ replicate n d @ post"
  from assms(4) have n: "0 < n" by (simp add: exceeds_limit_def)
  from long_run_first_digit_run [OF assms(1,2) n assms(3)]
  have run: "first_digit_run ?line = Some (replicate n d)" .
  have m: "match_line L cat ?line = Inl ValueError"
    using match_line_too_long [OF run] assms(4) by simp
  then have e: "extract_line L cat ?line = Inl ValueError"
    by (simp add: extract_line_unfold)
  have "?line \<noteq> []" using n by simp
  moreover have "\<forall>c \<in> set ?line. \<not> is_linebreak c" using assms(5) by auto
  ultimately have "splitlines ?line = [?line]" by (rule splitlines_single)
  with e have "extract_products_and_quantities L cat ?line = Inl ValueError"
    by (simp add: extract_products_and_quantities_def)
  with m show ?thesis by simp
qed

lemma example_limit: "exceeds_limit example_lib 4301"
  by (simp add: exceeds_limit_def example_lib_def)

lemma isdigit_examples: "isdigit (CHR ''1'')" "isdigit (CHR ''3'')"
  by code_simp+

text \<open>
  C8 as stated fails. The claim is made for every input text, and the quantity is what
  \<^verbatim>\<open>int\<close> returns on the first digit run; but \<^verbatim>\<open>int\<close> raises \<^verbatim>\<open>ValueError\<close> on a digit
  string longer than the interpreter's limit (4300 digits by default), the extractor does
  not catch it, and so it forms no entry at all, matched or unmatched. The line
  \<^verbatim>\<open>Need 11...1 pcs of SuperWidget\<close> with 4301 digits has a first digit run and a phrase
  that matches \<^verbatim>\<open>SuperWidget\<close> at similarity \<open>22/35 \<ge> 0.6\<close>, and the extractor raises on it.
\<close>

theorem extractor_long_digit_run_counterexample:
  "first_digit_run long_digit_line = Some (replicate 4301 (CHR ''1'')) \<and>
   strip_chars is_separator (remove_digit_runs long_digit_line) = ''Need  pcs of SuperWidget'' \<and>
   ratio example_lib ''SuperWidget'' ''Need  pcs of SuperWidget'' \<ge> 3 / 5 \<and>
   match_line example_lib [super_widget, mega_bolt] long_digit_line = Inl ValueError \<and>
   extract_products_and_quantities example_lib [super_widget, mega_bolt] long_digit_line
     = Inl ValueError"
proof -
  have pre: "\<forall>c \<in> set ''Need ''. \<not> isdigit c" by code_simp
  have post: "'' pcs of SuperWidget'' = [] \<or> \<not> isdigit (hd '' pcs of SuperWidget'')" by code_simp
  have nb: "\<forall>c \<in> set (''Need '' @ CHR ''1'' # '' pcs of SuperWidget''). \<not> is_linebreak c"
    by code_simp
  have run: "first_digit_run long_digit_line = Some (replicate 4301 (CHR ''1''))"
    unfolding long_digit_line_def
    by (rule long_run_first_digit_run [OF pre isdigit_examples(1) _ post]) simp
  have removed: "remove_digit_runs long_digit_line = remove_digit_runs (''Need '' @ '' pcs of SuperWidget'')"
    unfolding long_digit_line_def by (rule long_run_removed [OF isdigit_examples(1)])
  have "strip_chars is_separator (remove_digit_runs (''Need '' @ '' pcs of SuperWidget''))
      = ''Need  pcs of SuperWidget''"
    by code_simp
  then have phrase: "strip_chars is_separator (remove_digit_runs long_digit_line)
      = ''Need  pcs of SuperWidget''"
    unfolding removed .
  have close: "ratio example_lib ''SuperWidget'' ''Need  pcs of SuperWidget'' \<ge> 3 / 5"
    by code_simp
  note raises = long_run_raises [OF pre isdigit_examples(1) post example_limit nb,
      of "[super_widget, mega_bolt]", folded long_digit_line_def]
  from run phrase close raises [THEN conjunct1] raises [THEN conjunct2]
  show ?thesis by (intro conjI)
qed

text \<open>
  C8, amended. The extractor works on the lines \<^verbatim>\<open>splitlines\<close> gives, in order (lines
  without a line-break character, the last of them not empty, joined by one of the line
  terminators, are split back into themselves). A line without a digit gives nothing. On
  a line with a digit, the first run of digits is passed to \<^verbatim>\<open>int\<close>: if the run is
  longer than the interpreter's limit for the conversion (4300 digits by default) the
  line raises \<^verbatim>\<open>ValueError\<close>, and so does the extractor on every text that has such a
  line; otherwise the quantity is the decimal value of the run (the value of its digits
  in base ten), the candidate phrase is the line without its digits, trimmed at both
  ends of the separator characters (space, dash, colon, "x", asterisk, period, comma) up
  to the first and the last other character, and if some catalog name has similarity at
  least 0.6 to the phrase, the entry is the product of the best-scoring such name,
  resolved through \<open>find_product\<close>, with confidence 1.0; otherwise the entry has no
  product, confidence 0.5 and the phrase itself. The entry so formed is what the
  extractor appends for the line, unless its name fails the noise test; when no line
  raises, the extractor returns the entries of the lines in the order of the lines.
\<close>

theorem match_line_steps:
  "(((\<exists>c. sep = [c] \<and> is_linebreak c) \<or> sep = [CHR 0x0D, CHR 0x0A]) \<and>
    (\<forall>l \<in> set ls. \<forall>c \<in> set l. \<not> is_linebreak c) \<and> (ls \<noteq> [] \<longrightarrow> last ls \<noteq> []) \<longrightarrow>
      splitlines (join sep ls) = ls) \<and>
   extract_products_and_quantities L cat text =
     (if \<exists>line \<in> set (splitlines text). extract_line L cat line = Inl ValueError
      then Inl ValueError
      else Inr (List.map_filter
                  (\<lambda>line. case extract_line L cat line of Inr r \<Rightarrow> r | Inl e \<Rightarrow> None)
                  (splitlines text))) \<and>
   extract_line L cat line =
     (case match_line L cat line of
        Inl e \<Rightarrow> Inl e
      | Inr None \<Rightarrow> Inr None
      | Inr (Some entry) \<Rightarrow>
          if is_noise (snd (snd (snd entry))) then Inr None else Inr (Some entry)) \<and>
   ((\<forall>c \<in> set line. \<not> isdigit c) \<longrightarrow>
      match_line L cat line = Inr None \<and> extract_line L cat line = Inr None) \<and>
   (line = pre @ ds @ post \<and> (\<forall>c \<in> set pre. \<not> isdigit c) \<and> ds \<noteq> [] \<and>
    (\<forall>c \<in> set ds. isdigit c) \<and> (post = [] \<or> \<not> isdigit (hd post)) \<longrightarrow>
      (exceeds_limit L (length ds) \<longrightarrow>
         match_line L cat line = Inl ValueError \<and> extract_line L cat line = Inl ValueError) \<and>
      (\<not> exceeds_limit L (length ds) \<longrightarrow>
        ((\<exists>n \<in> set (map Product_Name cat).
            ratio L n (strip_chars is_separator (remove_digit_runs line)) \<ge> 3 / 5) \<longrightarrow>
           (\<exists>best r. best \<in> set (map Product_Name cat)
              \<and> ratio L best (strip_chars is_separator (remove_digit_runs line)) \<ge> 3 / 5
              \<and> (\<forall>n \<in> set (map Product_Name cat).
                    ratio L n (strip_chars is_separator (remove_digit_runs line))
                      \<le> ratio L best (strip_chars is_separator (remove_digit_runs line)))
              \<and> List.find (\<lambda>r. lower (Product_Name r) = lower best) cat = Some r
              \<and> match_line L cat line = Inr (Some (Some r, decimal_value ds, 1, best)))) \<and>
        ((\<forall>n \<in> set (map Product_Name cat).
            ratio L n (strip_chars is_separator (remove_digit_runs line)) < 3 / 5) \<longrightarrow>
           match_line L cat line =
             Inr (Some (None, decimal_value ds, 1 / 2,
                        strip_chars is_separator (remove_digit_runs line)))))) \<and>
   (\<exists>a b. filter (\<lambda>c. c \<notin> set ''0123456789'') line
             = a @ strip_chars is_separator (remove_digit_runs line) @ b
      \<and> set a \<subseteq> set '' -:x*.,'' \<and> set b \<subseteq> set '' -:x*.,''
      \<and> (strip_chars is_separator (remove_digit_runs line) \<noteq> [] \<longrightarrow>
            hd (strip_chars is_separator (remove_digit_runs line)) \<notin> set '' -:x*.,''
          \<and> last (strip_chars is_separator (remove_digit_runs line)) \<notin> set '' -:x*.,'')) \<and>
   ((isdigit d \<longleftrightarrow> d \<in> set ''0123456789'')
      \<and> decimal_value [] = 0 \<and> decimal_value (ds @ [d]) = 10 * decimal_value ds + digit_val d
      \<and> map digit_val ''0123456789'' = [0, 1, 2, 3, 4, 5, 6, 7, 8, 9])"
proof (intro conjI impI)
  assume "((\<exists>c. sep = [c] \<and> is_linebreak c) \<or> sep = [CHR 0x0D, CHR 0x0A]) \<and>
    (\<forall>l \<in> set ls. \<forall>c \<in> set l. \<not> is_linebreak c) \<and> (ls \<noteq> [] \<longrightarrow> last ls \<noteq> [])"
  then show "splitlines (join sep ls) = ls"
    using splitlines_join [of sep ls] by blast
next
  show "extract_products_and_quantities L cat text =
     (if \<exists>line \<in> set (splitlines text). extract_line L cat line = Inl ValueError
      then Inl ValueError
      else Inr (List.map_filter
                  (\<lambda>line. case extract_line L cat line of Inr r \<Rightarrow> r | Inl e \<Rightarrow> None)
                  (splitlines text)))"
    unfolding extract_products_and_quantities_def extract_loop_eq by simp
next
  show "extract_line L cat line =
     (case match_line L cat line of
        Inl e \<Rightarrow> Inl e
      | Inr None \<Rightarrow> Inr None
      | Inr (Some entry) \<Rightarrow>
          if is_noise (snd (snd (snd entry))) then Inr None else Inr (Some entry))"
    by (rule extract_line_unfold)
next
  assume "\<forall>c \<in> set line. \<not> isdigit c"
  then show "match_line L cat line = Inr None"
    by (simp add: match_line_no_digit first_digit_run_none)
  then show "extract_line L cat line = Inr None"
    by (simp add: extract_line_unfold)
next
  assume "line = pre @ ds @ post \<and> (\<forall>c \<in> set pre. \<not> isdigit c) \<and> ds \<noteq> [] \<and>
    (\<forall>c \<in> set ds. isdigit c) \<and> (post = [] \<or> \<not> isdigit (hd post))"
  then have run: "first_digit_run line = Some ds"
    using first_digit_run_some [of line pre ds post] by blast
  assume "exceeds_limit L (length ds)"
  with run show "match_line L cat line = Inl ValueError"
    by (rule match_line_too_long)
  then show "extract_line L cat line = Inl ValueError"
    by (simp add: extract_line_unfold)
next
  let ?cand = "strip_chars is_separator (remove_digit_runs line)"
  let ?names = "map Product_Name cat"
  assume "line = pre @ ds @ post \<and> (\<forall>c \<in> set pre. \<not> isdigit c) \<and> ds \<noteq> [] \<and>
    (\<forall>c \<in> set ds. isdigit c) \<and> (post = [] \<or> \<not> isdigit (hd post))"
  then have run: "first_digit_run line = Some ds"
    using first_digit_run_some [of line pre ds post] by blast
  assume lim: "\<not> exceeds_limit L (length ds)"
  assume "\<exists>n \<in> set ?names. ratio L n ?cand \<ge> 3 / 5"
  from get_close_matches_one_best [of ?names "3 / 5" "ratio L" ?cand, OF this] obtain b where
    b: "get_close_matches (ratio L) ?cand ?names 1 (3 / 5) = [b]" "b \<in> set ?names"
       "3 / 5 \<le> ratio L b ?cand" "\<forall>x \<in> set ?names. ratio L x ?cand \<le> ratio L b ?cand"
    by blast
  from find_product_of_name [OF b(2), of L] obtain r where
    r: "List.find (\<lambda>r. lower (Product_Name r) = lower b) cat = Some r"
       "find_product L cat b = Some r" by blast
  have "match_line L cat line = Inr (Some (Some r, decimal_value ds, 1, b))"
    using b(1) r(2) by (simp add: match_line_parsed [OF run lim])
  with b r show "\<exists>best r. best \<in> set ?names \<and> ratio L best ?cand \<ge> 3 / 5
            \<and> (\<forall>n \<in> set ?names. ratio L n ?cand \<le> ratio L best ?cand)
            \<and> List.find (\<lambda>r. lower (Product_Name r) = lower best) cat = Some r
            \<and> match_line L cat line = Inr (Some (Some r, decimal_value ds, 1, best))"
    by blast
next
  let ?cand = "strip_chars is_separator (remove_digit_runs line)"
  let ?names = "map Product_Name cat"
  assume "line = pre @ ds @ post \<and> (\<forall>c \<in> set pre. \<not> isdigit c) \<and> ds \<noteq> [] \<and>
    (\<forall>c \<in> set ds. isdigit c) \<and> (post = [] \<or> \<not> isdigit (hd post))"
  then have run: "first_digit_run line = Some ds"
    using first_digit_run_some [of line pre ds post] by blast
  assume lim: "\<not> exceeds_limit L (length ds)"
  assume "\<forall>n \<in> set ?names. ratio L n ?cand < 3 / 5"
  from get_close_matches_one_none [of ?names "ratio L" ?cand "3 / 5", OF this]
  show "match_line L cat line = Inr (Some (None, decimal_value ds, 1 / 2, ?cand))"
    by (simp add: match_line_parsed [OF run lim])
next
  let ?cand = "strip_chars is_separator (remove_digit_runs line)"
  have f: "filter (\<lambda>c. c \<notin> set ''0123456789'') line = remove_digit_runs line"
    unfolding remove_digit_runs_def isdigit_set ..
  from strip_chars_trims [of "remove_digit_runs line" is_separator] obtain a b where
    "remove_digit_runs line = a @ ?cand @ b" "\<forall>c \<in> set a. is_separator c"
    "\<forall>c \<in> set b. is_separator c"
    "?cand \<noteq> [] \<longrightarrow> \<not> is_separator (hd ?cand) \<and> \<not> is_separator (last ?cand)"
    by blast
  then have "filter (\<lambda>c. c \<notin> set ''0123456789'') line = a @ ?cand @ b
      \<and> set a \<subseteq> set '' -:x*.,'' \<and> set b \<subseteq> set '' -:x*.,''
      \<and> (?cand \<noteq> [] \<longrightarrow> hd ?cand \<notin> set '' -:x*.,'' \<and> last ?cand \<notin> set '' -:x*.,'')"
    unfolding f is_separator_set by blast
  then show "\<exists>a b. filter (\<lambda>c. c \<notin> set ''0123456789'') line = a @ ?cand @ b
      \<and> set a \<subseteq> set '' -:x*.,'' \<and> set b \<subseteq> set '' -:x*.,''
      \<and> (?cand \<noteq> [] \<longrightarrow> hd ?cand \<notin> set '' -:x*.,'' \<and> last ?cand \<notin> set '' -:x*.,'')"
    by blast
next
  show "isdigit d \<longleftrightarrow> d \<in> set ''0123456789''" by (rule isdigit_set)
  show "decimal_value [] = 0" by (simp add: decimal_value_def)
  show "decimal_value (ds @ [d]) = 10 * decimal_value ds + digit_val d"
    by (rule decimal_value_snoc)
  show "map digit_val ''0123456789'' = [0, 1, 2, 3, 4, 5, 6, 7, 8, 9]"
    by (rule digit_values)
qed

lemma not_other_either: "x \<noteq> a \<Longrightarrow> x = a \<or> x = y \<Longrightarrow> x = y"
  by blast

theorem match_line_steps_witness:
  "splitlines (join [CHR 0x0A] three_lines) = three_lines \<and>
   splitlines (join [CHR 0x0D, CHR 0x0A] three_lines) = three_lines \<and>
   extract_products_and_quantities example_lib [super_widget, mega_bolt]
       (join [CHR 0x0A] three_lines) =
     Inr [(Some super_widget, 10, 1, ''SuperWidget''), (None, 7, 1 / 2, ''zzz'')] \<and>
   match_line example_lib [super_widget, mega_bolt] ''hello'' = Inr None \<and>
   ratio example_lib ''SuperWidget'' ''Need  pcs of SuperWidget'' \<ge> 3 / 5 \<and>
   match_line example_lib [super_widget, mega_bolt] ''Need 10 pcs of SuperWidget'' =
     Inr (Some (Some super_widget, 10, 1, ''SuperWidget'')) \<and>
   match_line example_lib [super_widget, mega_bolt] ''7 zzz'' =
     Inr (Some (None, 7, 1 / 2, ''zzz'')) \<and>
   first_digit_run separators_line = Some ''12'' \<and>
   strip_chars is_separator (remove_digit_runs separators_line) = ''Mega Bolt'' \<and>
   match_line example_lib [super_widget, mega_bolt] separators_line =
     Inr (Some (Some mega_bolt, 12, 1, ''Mega Bolt'')) \<and>
   exceeds_limit example_lib (length (replicate 4301 (CHR ''1''))) \<and>
   match_line example_lib [super_widget, mega_bolt] long_digit_line = Inl ValueError \<and>
   extract_line example_lib [super_widget, mega_bolt] long_digit_line = Inl ValueError"
proof -
  let ?cat = "[super_widget, mega_bolt]"
  note t = match_line_steps [of _ _ example_lib ?cat]
  have lines: "(\<forall>l \<in> set three_lines. \<forall>c \<in> set l. \<not> is_linebreak c)
      \<and> (three_lines \<noteq> [] \<longrightarrow> last three_lines \<noteq> [])"
    by code_simp
  have "(\<exists>c. [CHR 0x0A] = [c] \<and> is_linebreak c) \<or> [CHR 0x0A] = [CHR 0x0D, CHR 0x0A]"
    using is_linebreak_LF by simp
  from this lines have a0: "((\<exists>c. [CHR 0x0A] = [c] \<and> is_linebreak c) \<or> [CHR 0x0A] = [CHR 0x0D, CHR 0x0A])
      \<and> (\<forall>l \<in> set three_lines. \<forall>c \<in> set l. \<not> is_linebreak c)
      \<and> (three_lines \<noteq> [] \<longrightarrow> last three_lines \<noteq> [])"
    by (rule conjI)
  have c0: "splitlines (join [CHR 0x0A] three_lines) = three_lines"
    using t [of "[CHR 0x0A]" three_lines "[]" "[]" "[]" "[]" "[]", THEN conjunct1, THEN mp, OF a0] .
  have "(\<exists>c. [CHR 0x0D, CHR 0x0A] = [c] \<and> is_linebreak c)
      \<or> [CHR 0x0D, CHR 0x0A] = [CHR 0x0D, CHR 0x0A]"
    by simp
  from this lines have a0': "((\<exists>c. [CHR 0x0D, CHR 0x0A] = [c] \<and> is_linebreak c)
        \<or> [CHR 0x0D, CHR 0x0A] = [CHR 0x0D, CHR 0x0A])
      \<and> (\<forall>l \<in> set three_lines. \<forall>c \<in> set l. \<not> is_linebreak c)
      \<and> (three_lines \<noteq> [] \<longrightarrow> last three_lines \<noteq> [])"
    by (rule conjI)
  have c0': "splitlines (join [CHR 0x0D, CHR 0x0A] three_lines) = three_lines"
    using t [of "[CHR 0x0D, CHR 0x0A]" three_lines "[]" "[]" "[]" "[]" "[]",
      THEN conjunct1, THEN mp, OF a0'] .
  have rhs: "(if \<exists>line \<in> set three_lines. extract_line example_lib ?cat line = Inl ValueError
      then Inl ValueError
      else Inr (List.map_filter
                  (\<lambda>line. case extract_line example_lib ?cat line of Inr r \<Rightarrow> r | Inl e \<Rightarrow> None)
                  three_lines))
     = Inr [(Some super_widget, 10, 1, ''SuperWidget''), (None, 7, 1 / 2, ''zzz'')]"
    by code_simp
  have c00: "extract_products_and_quantities example_lib ?cat (join [CHR 0x0A] three_lines) =
      Inr [(Some super_widget, 10, 1, ''SuperWidget''), (None, 7, 1 / 2, ''zzz'')]"
    using t [of "[]" "[]" "join [CHR 0x0A] three_lines" "[]" "[]" "[]" "[]",
      THEN conjunct2, THEN conjunct1]
    unfolding c0 rhs .
  note u = t [of "[]" "[]" "[]", THEN conjunct2, THEN conjunct2, THEN conjunct2]
  have a1: "\<forall>c \<in> set ''hello''. \<not> isdigit c" by code_simp
  have c1: "match_line example_lib ?cat ''hello'' = Inr None"
    using u [of "''hello''" "[]" "[]" "[]", THEN conjunct1, THEN mp, OF a1, THEN conjunct1] .
  have l2: "\<not> exceeds_limit example_lib (length ''10'')"
    by (simp add: exceeds_limit_def)
  have a2: "''Need 10 pcs of SuperWidget'' = ''Need '' @ ''10'' @ '' pcs of SuperWidget''
      \<and> (\<forall>c \<in> set ''Need ''. \<not> isdigit c) \<and> ''10'' \<noteq> [] \<and> (\<forall>c \<in> set ''10''. isdigit c)
      \<and> ('' pcs of SuperWidget'' = [] \<or> \<not> isdigit (hd '' pcs of SuperWidget''))"
    by code_simp
  have r2: "ratio example_lib ''SuperWidget'' ''Need  pcs of SuperWidget'' \<ge> 3 / 5"
    by code_simp
  have e2: "\<exists>n \<in> set (map Product_Name ?cat).
      ratio example_lib n (strip_chars is_separator (remove_digit_runs ''Need 10 pcs of SuperWidget''))
        \<ge> 3 / 5"
    by code_simp
  from u [of "''Need 10 pcs of SuperWidget''" "''Need ''" "''10''" "'' pcs of SuperWidget''",
      THEN conjunct2, THEN conjunct1, THEN mp, OF a2, THEN conjunct2, THEN mp, OF l2,
      THEN conjunct1, THEN mp, OF e2]
  obtain best r where
    "match_line example_lib ?cat ''Need 10 pcs of SuperWidget'' =
       Inr (Some (Some r, decimal_value ''10'', 1, best))"
    by blast
  then have ne: "match_line example_lib ?cat ''Need 10 pcs of SuperWidget'' \<noteq> Inr None" by simp
  have "match_line example_lib ?cat ''Need 10 pcs of SuperWidget'' = Inr None \<or>
      match_line example_lib ?cat ''Need 10 pcs of SuperWidget'' =
        Inr (Some (Some super_widget, 10, 1, ''SuperWidget''))"
    by code_simp
  from not_other_either [OF ne this]
  have c2: "match_line example_lib ?cat ''Need 10 pcs of SuperWidget'' =
      Inr (Some (Some super_widget, 10, 1, ''SuperWidget''))" .
  have l3: "\<not> exceeds_limit example_lib (length ''7'')"
    by (simp add: exceeds_limit_def)
  have a3: "''7 zzz'' = [] @ ''7'' @ '' zzz''
      \<and> (\<forall>c \<in> set []. \<not> isdigit c) \<and> ''7'' \<noteq> [] \<and> (\<forall>c \<in> set ''7''. isdigit c)
      \<and> ('' zzz'' = [] \<or> \<not> isdigit (hd '' zzz''))"
    by code_simp
  have e3: "\<forall>n \<in> set (map Product_Name ?cat).
      ratio example_lib n (strip_chars is_separator (remove_digit_runs ''7 zzz'')) < 3 / 5"
    by code_simp
  have v3: "decimal_value ''7'' = 7" "strip_chars is_separator (remove_digit_runs ''7 zzz'') = ''zzz''"
    by code_simp+
  have c3: "match_line example_lib ?cat ''7 zzz'' = Inr (Some (None, 7, 1 / 2, ''zzz''))"
    using u [of "''7 zzz''" "[]" "''7''" "'' zzz''",
      THEN conjunct2, THEN conjunct1, THEN mp, OF a3, THEN conjunct2, THEN mp, OF l3,
      THEN conjunct2, THEN mp, OF e3]
    unfolding v3 .
  have l5: "\<not> exceeds_limit example_lib (length ''12'')"
    by (simp add: exceeds_limit_def)
  have a5: "separators_line = ''-:x* '' @ ''12'' @ '' Mega Bolt 7.,''
      \<and> (\<forall>c \<in> set ''-:x* ''. \<not> isdigit c) \<and> ''12'' \<noteq> [] \<and> (\<forall>c \<in> set ''12''. isdigit c)
      \<and> ('' Mega Bolt 7.,'' = [] \<or> \<not> isdigit (hd '' Mega Bolt 7.,''))"
    by code_simp
  have d5: "first_digit_run separators_line = Some ''12''"
    and p5: "strip_chars is_separator (remove_digit_runs separators_line) = ''Mega Bolt''"
    by code_simp+
  have e5: "\<exists>n \<in> set (map Product_Name ?cat).
      ratio example_lib n (strip_chars is_separator (remove_digit_runs separators_line)) \<ge> 3 / 5"
    by code_simp
  from u [of separators_line "''-:x* ''" "''12''" "'' Mega Bolt 7.,''",
      THEN conjunct2, THEN conjunct1, THEN mp, OF a5, THEN conjunct2, THEN mp, OF l5,
      THEN conjunct1, THEN mp, OF e5]
  obtain best5 r5 where
    "match_line example_lib ?cat separators_line =
       Inr (Some (Some r5, decimal_value ''12'', 1, best5))"
    by blast
  then have ne5: "match_line example_lib ?cat separators_line \<noteq> Inr None" by simp
  have "match_line example_lib ?cat separators_line = Inr None \<or>
      match_line example_lib ?cat separators_line =
        Inr (Some (Some mega_bolt, 12, 1, ''Mega Bolt''))"
    by code_simp
  from not_other_either [OF ne5 this]
  have c5: "match_line example_lib ?cat separators_line =
      Inr (Some (Some mega_bolt, 12, 1, ''Mega Bolt''))" .
  have l4: "exceeds_limit example_lib (length (replicate 4301 (CHR ''1'')))"
    by (simp add: exceeds_limit_def example_lib_def)
  have "\<forall>c \<in> set ''Need ''. \<not> isdigit c"
    "'' pcs of SuperWidget'' = [] \<or> \<not> isdigit (hd '' pcs of SuperWidget'')"
    by code_simp+
  then have a4: "long_digit_line = ''Need '' @ replicate 4301 (CHR ''1'') @ '' pcs of SuperWidget''
      \<and> (\<forall>c \<in> set ''Need ''. \<not> isdigit c) \<and> replicate 4301 (CHR ''1'') \<noteq> []
      \<and> (\<forall>c \<in> set (replicate 4301 (CHR ''1'')). isdigit c)
      \<and> ('' pcs of SuperWidget'' = [] \<or> \<not> isdigit (hd '' pcs of SuperWidget''))"
    unfolding long_digit_line_def by (simp add: isdigit_examples)
  note c4 = u [of long_digit_line "''Need ''" "replicate 4301 (CHR ''1'')" "'' pcs of SuperWidget''",
      THEN conjunct2, THEN conjunct1, THEN mp, OF a4, THEN conjunct1, THEN mp, OF l4]
  from c0 c0' c00 c1 r2 c2 c3 d5 p5 c5 l4 c4 [THEN conjunct1] c4 [THEN conjunct2] show ?thesis
    by (intro conjI)
qed

lemma map_filter_append:
  "List.map_filter f (xs @ ys) = List.map_filter f xs @ List.map_filter f ys"
  by (simp add: List.map_filter_def)

lemma extract_line_matched:
  assumes "first_digit_run line = Some ds"
    and "get_close_matches (ratio L) (strip_chars is_separator (remove_digit_runs line))
           (map Product_Name cat) 1 (3 / 5) = best # others"
  shows "extract_line L cat line =
     (if exceeds_limit L (length ds) then Inl ValueError
      else Inr (if is_noise best then None
                else Some (find_product L cat best, decimal_value ds, 1, best)))"
proof (cases "exceeds_limit L (length ds)")
  case True
  with match_line_too_long [OF assms(1) True, of cat] show ?thesis
    by (simp add: extract_line_unfold)
next
  case False
  with match_line_parsed [OF assms(1) False, of cat] assms(2) show ?thesis
    by (simp add: extract_line_unfold)
qed

text \<open>
  C10 as stated fails on its second half. The line \<^verbatim>\<open>33...3 Mega Bolt before\<close> with 4301
  digits contains the noise term \<^verbatim>\<open>before\<close> and its phrase matches the catalog name
  \<^verbatim>\<open>Mega Bolt\<close>, which is free of noise terms; the line is not kept, because \<^verbatim>\<open>int\<close>
  raises \<^verbatim>\<open>ValueError\<close> on its digit run before the match is made and the extractor
  returns nothing.
\<close>

theorem noise_long_digit_run_counterexample:
  "contains ''before'' (lower long_noise_line) \<and>
   get_close_matches (ratio example_lib)
       (strip_chars is_separator (remove_digit_runs long_noise_line))
       (map Product_Name [mega_bolt, japan_tea]) 1 (3 / 5) = [''Mega Bolt''] \<and>
   \<not> is_noise ''Mega Bolt'' \<and>
   extract_products_and_quantities example_lib [mega_bolt, japan_tea] long_noise_line
     = Inl ValueError"
proof -
  have post: "'' Mega Bolt before'' = [] \<or> \<not> isdigit (hd '' Mega Bolt before'')" by code_simp
  have nb: "\<forall>c \<in> set ([] @ CHR ''3'' # '' Mega Bolt before''). \<not> is_linebreak c"
    by code_simp
  have "contains ''before'' (lower '' Mega Bolt before'')" by code_simp
  from contains_append [OF this, of "replicate 4301 (lower_char (CHR ''3''))"]
  have c1: "contains ''before'' (lower long_noise_line)"
    by (simp add: long_noise_line_def lower_def)
  have removed: "remove_digit_runs long_noise_line = remove_digit_runs '' Mega Bolt before''"
    unfolding long_noise_line_def
    using long_run_removed [OF isdigit_examples(2), of "[]" 4301 "'' Mega Bolt before''"]
    by (simp only: append_Nil)
  have "get_close_matches (ratio example_lib)
       (strip_chars is_separator (remove_digit_runs '' Mega Bolt before''))
       (map Product_Name [mega_bolt, japan_tea]) 1 (3 / 5) = [''Mega Bolt'']"
    by code_simp
  then have c2: "get_close_matches (ratio example_lib)
       (strip_chars is_separator (remove_digit_runs long_noise_line))
       (map Product_Name [mega_bolt, japan_tea]) 1 (3 / 5) = [''Mega Bolt'']"
    unfolding removed .
  have c3: "\<not> is_noise ''Mega Bolt''" by code_simp
  have "\<forall>c \<in> set []. \<not> isdigit c" by simp
  from long_run_raises [OF this isdigit_examples(2) post example_limit nb,
      of "[mega_bolt, japan_tea]", THEN conjunct2]
  have c4: "extract_products_and_quantities example_lib [mega_bolt, japan_tea] long_noise_line
     = Inl ValueError"
    unfolding long_noise_line_def by (simp only: append_Nil)
  from c1 c2 c3 c4 show ?thesis by (intro conjI)
qed

text \<open>
  C10, amended. The noise test reads the matched catalog name when the fuzzy match at
  cutoff 0.6 succeeded, not the raw phrase of the line. A line with a digit whose best
  match is the name \<open>best\<close> raises \<^verbatim>\<open>ValueError\<close> when its first digit run is longer than
  the interpreter's limit for \<^verbatim>\<open>int\<close> (4300 digits by default); otherwise it contributes
  nothing when \<open>best\<close> contains a noise phrase, and contributes the matched entry, with
  confidence 1.0, when \<open>best\<close> contains none, whatever the text of the line itself
  contains. The extractor raises when this or another line of the text raises, and
  otherwise returns the contributions of the lines before, of this line, and of the lines
  after, in this order.
\<close>

theorem noise_filter_on_matched_name:
  assumes "splitlines text = before @ line # after"
    and "first_digit_run line = Some ds"
    and "get_close_matches (ratio L) (strip_chars is_separator (remove_digit_runs line))
           (map Product_Name cat) 1 (3 / 5) = best # others"
  shows "extract_line L cat line =
           (if exceeds_limit L (length ds) then Inl ValueError
            else Inr (if is_noise best then None
                      else Some (find_product L cat best, decimal_value ds, 1, best))) \<and>
         extract_products_and_quantities L cat text =
           (if exceeds_limit L (length ds)
               \<or> (\<exists>l \<in> set (before @ after). extract_line L cat l = Inl ValueError)
            then Inl ValueError
            else Inr (List.map_filter
                        (\<lambda>l. case extract_line L cat l of Inr r \<Rightarrow> r | Inl e \<Rightarrow> None) before
                      @ (if is_noise best then []
                         else [(find_product L cat best, decimal_value ds, 1, best)])
                      @ List.map_filter
                        (\<lambda>l. case extract_line L cat l of Inr r \<Rightarrow> r | Inl e \<Rightarrow> None) after))"
proof
  let ?f = "\<lambda>l. case extract_line L cat l of Inr r \<Rightarrow> r | Inl e \<Rightarrow> None"
  show e: "extract_line L cat line =
           (if exceeds_limit L (length ds) then Inl ValueError
            else Inr (if is_noise best then None
                      else Some (find_product L cat best, decimal_value ds, 1, best)))"
    by (rule extract_line_matched [OF assms(2,3)])
  have one: "\<not> exceeds_limit L (length ds) \<Longrightarrow> List.map_filter ?f [line] =
      (if is_noise best then [] else [(find_product L cat best, decimal_value ds, 1, best)])"
    by (simp add: List.map_filter_simps e)
  have split: "List.map_filter ?f (before @ line # after) =
      List.map_filter ?f before @ List.map_filter ?f [line] @ List.map_filter ?f after"
    using map_filter_append [of ?f before "[line] @ after"]
      map_filter_append [of ?f "[line]" after] by simp
  have err: "(\<exists>l \<in> set (before @ line # after). extract_line L cat l = Inl ValueError)
      \<longleftrightarrow> exceeds_limit L (length ds)
          \<or> (\<exists>l \<in> set (before @ after). extract_line L cat l = Inl ValueError)"
    using e by auto
  show "extract_products_and_quantities L cat text =
           (if exceeds_limit L (length ds)
               \<or> (\<exists>l \<in> set (before @ after). extract_line L cat l = Inl ValueError)
            then Inl ValueError
            else Inr (List.map_filter ?f before
                      @ (if is_noise best then []
                         else [(find_product L cat best, decimal_value ds, 1, best)])
                      @ List.map_filter ?f after))"
    unfolding extract_products_and_quantities_def extract_loop_eq assms(1) err split
    using one by simp
qed

theorem noise_filter_on_matched_name_witness:
  "is_noise ''Japan Tea'' \<and> \<not> is_noise ''Mega Bolt'' \<and> is_noise ''3 Mega Bolt before'' \<and>
   extract_line example_lib [mega_bolt, japan_tea] ''5 Japan Tea'' = Inr None \<and>
   extract_line example_lib [mega_bolt, japan_tea] ''3 Mega Bolt before'' =
     Inr (Some (Some mega_bolt, 3, 1, ''Mega Bolt'')) \<and>
   extract_products_and_quantities example_lib [mega_bolt, japan_tea] two_lines =
     Inr [(Some mega_bolt, 3, 1, ''Mega Bolt'')] \<and>
   extract_line example_lib [mega_bolt, japan_tea] long_noise_line = Inl ValueError"
proof -
  let ?cat = "[mega_bolt, japan_tea]"
  let ?f = "\<lambda>l. case extract_line example_lib ?cat l of Inr r \<Rightarrow> r | Inl e \<Rightarrow> None"
  have n1: "is_noise ''Japan Tea''" and n2: "\<not> is_noise ''Mega Bolt''"
    and n3: "is_noise ''3 Mega Bolt before''"
    by code_simp+
  have s1: "splitlines two_lines = [] @ ''5 Japan Tea'' # [''3 Mega Bolt before'']"
    and s2: "splitlines two_lines = [''5 Japan Tea''] @ ''3 Mega Bolt before'' # []"
    by code_simp+
  have d1: "first_digit_run ''5 Japan Tea'' = Some ''5''"
    and d2: "first_digit_run ''3 Mega Bolt before'' = Some ''3''"
    by code_simp+
  have g1: "get_close_matches (ratio example_lib)
      (strip_chars is_separator (remove_digit_runs ''5 Japan Tea''))
      (map Product_Name ?cat) 1 (3 / 5) = ''Japan Tea'' # []"
    by code_simp
  have g2: "get_close_matches (ratio example_lib)
      (strip_chars is_separator (remove_digit_runs ''3 Mega Bolt before''))
      (map Product_Name ?cat) 1 (3 / 5) = ''Mega Bolt'' # []"
    by code_simp
  have l1: "\<not> exceeds_limit example_lib (length ''5'')"
    and l2: "\<not> exceeds_limit example_lib (length ''3'')"
    by (simp_all add: exceeds_limit_def)
  have f2: "find_product example_lib ?cat ''Mega Bolt'' = Some mega_bolt"
    and i2: "decimal_value ''3'' = 3"
    by code_simp+
  from noise_filter_on_matched_name [OF s1 d1 g1, THEN conjunct1] n1 l1
  have a: "extract_line example_lib ?cat ''5 Japan Tea'' = Inr None"
    by simp
  from noise_filter_on_matched_name [OF s2 d2 g2, THEN conjunct1] n2 l2
  have b: "extract_line example_lib ?cat ''3 Mega Bolt before'' =
      Inr (Some (Some mega_bolt, 3, 1, ''Mega Bolt''))"
    unfolding f2 i2 by simp
  have others: "\<not> (\<exists>l \<in> set ([''5 Japan Tea''] @ []).
      extract_line example_lib ?cat l = Inl ValueError)"
    "List.map_filter ?f [''5 Japan Tea''] = []" "List.map_filter ?f [] = []"
    using a by (simp_all add: List.map_filter_simps)
  from noise_filter_on_matched_name [OF s2 d2 g2, THEN conjunct2] n2 l2 others
  have c: "extract_products_and_quantities example_lib ?cat two_lines =
     Inr [(Some mega_bolt, 3, 1, ''Mega Bolt'')]"
    unfolding f2 i2 by simp
  have post: "'' Mega Bolt before'' = [] \<or> \<not> isdigit (hd '' Mega Bolt before'')" by code_simp
  have "\<forall>c \<in> set []. \<not> isdigit c" by simp
  from long_run_first_digit_run [OF this isdigit_examples(2) _ post, of 4301]
  have d3: "first_digit_run long_noise_line = Some (replicate 4301 (CHR ''3''))"
    unfolding long_noise_line_def by simp
  have "\<forall>c \<in> set '' Mega Bolt before''. \<not> is_linebreak c" "\<not> is_linebreak (CHR ''3'')"
    by code_simp+
  then have "\<forall>c \<in> set long_noise_line. \<not> is_linebreak c"
    unfolding long_noise_line_def by simp
  moreover have "long_noise_line \<noteq> []"
    by (simp add: long_noise_line_def)
  ultimately have s3: "splitlines long_noise_line = [] @ long_noise_line # []"
    using splitlines_single [of long_noise_line] by simp
  have "remove_digit_runs long_noise_line = remove_digit_runs '' Mega Bolt before''"
    using isdigit_examples(2) by (simp add: long_noise_line_def remove_digit_runs_def)
  moreover have "get_close_matches (ratio example_lib)
       (strip_chars is_separator (remove_digit_runs '' Mega Bolt before''))
       (map Product_Name ?cat) 1 (3 / 5) = ''Mega Bolt'' # []"
    by code_simp
  ultimately have g3: "get_close_matches (ratio example_lib)
       (strip_chars is_separator (remove_digit_runs long_noise_line))
       (map Product_Name ?cat) 1 (3 / 5) = ''Mega Bolt'' # []"
    by simp
  have l3: "exceeds_limit example_lib (length (replicate 4301 (CHR ''3'')))"
    by (simp add: exceeds_limit_def example_lib_def)
  from noise_filter_on_matched_name [OF s3 d3 g3, THEN conjunct1] l3
  have d: "extract_line example_lib ?cat long_noise_line = Inl ValueError"
    by simp
  from n1 n2 n3 a b c d show ?thesis by (intro conjI)
qed

subsection \<open>Assembling the order\<close>

lemma confidence_score_make_item:
  "make_item L cat e = Inr item \<Longrightarrow> confidence_score item = fst (snd (snd e))"
  by (cases e) (auto simp: make_item_def and_then_eq_Inr)

lemma items_loop_Inr:
  "items_loop L cat es acc t = Inr (its, tot) \<Longrightarrow>
     \<exists>new. its = acc @ new \<and> list_all2 (\<lambda>e item. make_item L cat e = Inr item) es new
       \<and> tot = t + sum_list (map (\<lambda>e. fst (snd (snd e))) es)"
proof (induction es arbitrary: acc t)
  case Nil
  then show ?case by simp
next
  case (Cons e es)
  from Cons.prems obtain item where i: "make_item L cat e = Inr item"
    and r: "items_loop L cat es (acc @ [item]) (t + fst (snd (snd e))) = Inr (its, tot)"
    by (auto simp: and_then_eq_Inr)
  from Cons.IH [OF r] obtain new where
    "its = (acc @ [item]) @ new" "list_all2 (\<lambda>e item. make_item L cat e = Inr item) es new"
    "tot = t + fst (snd (snd e)) + sum_list (map (\<lambda>e. fst (snd (snd e))) es)"
    by blast
  with i show ?case by (intro exI [of _ "item # new"]) (simp add: algebra_simps)
qed

lemma made_items_scores:
  "list_all2 (\<lambda>e item. make_item L cat e = Inr item) es its \<Longrightarrow>
     map confidence_score its = map (\<lambda>e. fst (snd (snd e))) es"
  by (induction rule: list_all2_induct) (simp_all add: confidence_score_make_item)

lemma made_items_source:
  "list_all2 P xs ys \<Longrightarrow> y \<in> set ys \<Longrightarrow> \<exists>x \<in> set xs. P x y"
  by (induction rule: list_all2_induct) auto

lemma process_email_Inr:
  assumes "process_email L cat email = Inr order"
  shows "\<exists>entries. extract_products_and_quantities L cat (raw_content email) = Inr entries
      \<and> list_all2 (\<lambda>e item. make_item L cat e = Inr item) (filtered_items entries) (items order)
      \<and> total_confidence_score order =
          (if items order = [] then 0
           else sum_list (map (\<lambda>e. fst (snd (snd e))) (filtered_items entries))
                  / of_nat (length (items order)))"
proof -
  from assms obtain entries its tot where
    e: "extract_products_and_quantities L cat (raw_content email) = Inr entries"
    and l: "items_loop L cat (filtered_items entries) [] 0 = Inr (its, tot)"
    and o: "items order = its"
      "total_confidence_score order = (if its \<noteq> [] then tot / of_nat (length its) else 0)"
    by (auto simp: process_email_def and_then_eq_Inr Order_init_def Let_def)
  from items_loop_Inr [OF l] o e show ?thesis by auto
qed

lemma process_email_of_parts:
  assumes "extract_products_and_quantities L cat (raw_content email) = Inr entries"
    and "items_loop L cat (filtered_items entries) [] 0 = Inr (its, tot)"
  shows "\<exists>order. process_email L cat email = Inr order \<and> items order = its
      \<and> total_confidence_score order = (if its \<noteq> [] then tot / of_nat (length its) else 0)"
  using assms by (simp add: process_email_def Order_init_def Let_def)

lemma digit_val_range: "isdigit c \<Longrightarrow> 0 \<le> digit_val c \<and> digit_val c \<le> 9"
  by (simp add: isdigit_def digit_val_def less_eq_char_def)

lemma decimal_value_range:
  assumes "\<forall>c \<in> set ds. isdigit c"
  shows "0 \<le> decimal_value ds \<and> decimal_value ds < 10 ^ length ds"
proof -
  have "0 \<le> acc \<Longrightarrow> acc < 10 ^ k \<Longrightarrow> \<forall>c \<in> set ds. isdigit c \<Longrightarrow>
      0 \<le> foldl (\<lambda>acc c. 10 * acc + digit_val c) acc ds
      \<and> foldl (\<lambda>acc c. 10 * acc + digit_val c) acc ds < 10 ^ (k + length ds)" for acc :: int and k
  proof (induction ds arbitrary: acc k)
    case Nil
    then show ?case by simp
  next
    case (Cons d ds)
    from Cons.prems(3) have d: "0 \<le> digit_val d" "digit_val d \<le> 9"
      using digit_val_range [of d] by simp_all
    from Cons.prems(2) have "acc + 1 \<le> 10 ^ k" by simp
    then have "10 * (acc + 1) \<le> 10 * 10 ^ k" by (rule mult_left_mono) simp
    with d have "10 * acc + digit_val d < 10 ^ Suc k" by simp
    moreover from Cons.prems(1) d have "0 \<le> 10 * acc + digit_val d" by simp
    ultimately show ?case
      using Cons.IH [of "10 * acc + digit_val d" "Suc k"] Cons.prems(3) by simp
  qed
  from this [of 0 0] assms show ?thesis by (simp add: decimal_value_def)
qed

lemma parsed_quantity_formats:
  assumes "ds \<noteq> []" "\<forall>c \<in> set ds. isdigit c" "\<not> exceeds_limit L (length ds)"
  shows "\<not> exceeds_limit L (length (str_nat (nat \<bar>decimal_value ds\<bar>)))"
proof -
  from assms(1) obtain k where k: "length ds = Suc k" by (cases ds) auto
  from decimal_value_range [OF assms(2)]
  have "nat \<bar>decimal_value ds\<bar> < 10 ^ length ds"
    by (simp add: nat_less_iff)
  with k have "length (str_nat (nat \<bar>decimal_value ds\<bar>)) \<le> length ds"
    using str_nat_short [of "nat \<bar>decimal_value ds\<bar>" k] by simp
  with assms(3) show ?thesis using exceeds_limit_mono by blast
qed

lemma find_product_in_catalog: "find_product L cat phrase = Some p \<Longrightarrow> p \<in> set cat"
  by (auto simp: find_product_unfold find_Some_iff split: option.splits list.splits)

lemma match_line_origin:
  assumes "match_line L cat line = Inr (Some (product, q, conf, name))"
  shows "(\<exists>ds. ds \<noteq> [] \<and> (\<forall>c \<in> set ds. isdigit c) \<and> \<not> exceeds_limit L (length ds)
            \<and> q = decimal_value ds)
       \<and> (\<forall>p. product = Some p \<longrightarrow> p \<in> set cat)"
proof -
  from assms obtain ds where run: "first_digit_run line = Some ds"
    by (cases "first_digit_run line") (simp_all add: match_line_def)
  from assms have lim: "\<not> exceeds_limit L (length ds)"
    using match_line_too_long [OF run, of L cat] by auto
  from assms match_line_parsed [OF run lim, of cat]
  have "q = decimal_value ds" "\<forall>p. product = Some p \<longrightarrow> p \<in> set cat"
    by (auto split: list.splits dest: find_product_in_catalog)
  with first_digit_run_digits [OF run] lim show ?thesis by blast
qed

lemma extracted_origin:
  assumes "extract_products_and_quantities L cat text = Inr entries"
    and "(product, q, conf, name) \<in> set entries"
  shows "(\<exists>ds. ds \<noteq> [] \<and> (\<forall>c \<in> set ds. isdigit c) \<and> \<not> exceeds_limit L (length ds)
            \<and> q = decimal_value ds)
       \<and> (\<forall>p. product = Some p \<longrightarrow> p \<in> set cat)"
proof -
  from assms(1) have "entries = List.map_filter
      (\<lambda>line. case extract_line L cat line of Inr r \<Rightarrow> r | Inl e \<Rightarrow> None) (splitlines text)"
    by (simp add: extract_products_and_quantities_def extract_loop_eq split: if_splits)
  with assms(2) obtain line where
    "(case extract_line L cat line of Inr r \<Rightarrow> r | Inl e \<Rightarrow> None) = Some (product, q, conf, name)"
    by (auto simp: List.map_filter_def)
  then have "extract_line L cat line = Inr (Some (product, q, conf, name))"
    by (simp split: sum.splits)
  then have "match_line L cat line = Inr (Some (product, q, conf, name))"
    by (auto simp: extract_line_unfold split: sum.splits option.splits if_splits)
  then show ?thesis by (rule match_line_origin)
qed

lemma extractor_returns:
  assumes "\<forall>line \<in> set (splitlines text). \<forall>ds. first_digit_run line = Some ds
             \<longrightarrow> \<not> exceeds_limit L (length ds)"
  shows "\<exists>entries. extract_products_and_quantities L cat text = Inr entries"
proof -
  have "extract_line L cat line \<noteq> Inl ValueError" if "line \<in> set (splitlines text)" for line
  proof (cases "first_digit_run line")
    case None
    then show ?thesis by (simp add: extract_line_unfold match_line_no_digit)
  next
    case (Some ds)
    with assms that have "\<not> exceeds_limit L (length ds)" by blast
    from match_line_parsed [OF Some this, of cat] show ?thesis
      by (simp add: extract_line_unfold split: list.splits)
  qed
  then show ?thesis
    by (auto simp: extract_products_and_quantities_def extract_loop_eq)
qed

lemma items_loop_returns:
  "\<forall>e \<in> set es. \<exists>item. make_item L cat e = Inr item \<Longrightarrow> \<exists>r. items_loop L cat es acc t = Inr r"
proof (induction es arbitrary: acc t)
  case Nil
  then show ?case by simp
next
  case (Cons e es)
  then obtain item where "make_item L cat e = Inr item" by auto
  with Cons.IH [of "acc @ [item]" "t + fst (snd (snd e))"] Cons.prems show ?case by simp
qed

text \<open>
  \<open>process_email\<close> returns an order whenever no line of the email has a first digit run
  longer than the interpreter's limit and the quantities of the catalog can be formatted
  within it; with the default limit of 4300 digits that is every email whose digit runs
  have at most 4300 digits.
\<close>

lemma process_email_returns:
  assumes "\<forall>line \<in> set (splitlines (raw_content email)). \<forall>ds. first_digit_run line = Some ds
             \<longrightarrow> \<not> exceeds_limit L (length ds)"
    and "\<forall>p \<in> set cat. \<not> exceeds_limit L (length (str_nat (nat \<bar>Min_Order_Quantity p\<bar>)))
             \<and> \<not> exceeds_limit L (length (str_nat (nat \<bar>Available_in_Stock p\<bar>)))"
  shows "\<exists>order. process_email L cat email = Inr order"
proof -
  from extractor_returns [OF assms(1), of cat] obtain entries where
    x: "extract_products_and_quantities L cat (raw_content email) = Inr entries" by blast
  have "\<exists>item. make_item L cat e = Inr item" if "e \<in> set (filtered_items entries)" for e
  proof -
    obtain product q conf name where e: "e = (product, q, conf, name)" by (cases e) auto
    with that have "(product, q, conf, name) \<in> set entries" by (simp add: filtered_items_def)
    from extracted_origin [OF x this] obtain ds where
      ds: "ds \<noteq> []" "\<forall>c \<in> set ds. isdigit c" "\<not> exceeds_limit L (length ds)"
        "q = decimal_value ds"
      and p: "\<forall>p. product = Some p \<longrightarrow> p \<in> set cat"
      by blast
    from parsed_quantity_formats [OF ds(1,2,3)] ds(4)
    have q: "\<not> exceeds_limit L (length (str_nat (nat \<bar>q\<bar>)))" by simp
    have "\<exists>r. validate_against_catalog L cat product q = Inr r"
    proof (cases product)
      case None
      then show ?thesis by (simp add: validate_absent del: split_paired_Ex)
    next
      case (Some r)
      with p assms(2) q show ?thesis by (simp add: validate_present del: split_paired_Ex)
    qed
    then show ?thesis
      unfolding e by (auto simp: make_item_def)
  qed
  then have "\<exists>r. items_loop L cat (filtered_items entries) [] 0 = Inr r"
    by (intro items_loop_returns) blast
  then obtain its tot where "items_loop L cat (filtered_items entries) [] 0 = Inr (its, tot)"
    by auto
  from process_email_of_parts [OF x this] show ?thesis by blast
qed

text \<open>
  C4. The aggregate confidence score of an order \<open>process_email\<close> returns is the
  arithmetic mean of the confidence scores of its items, the entries that passed the
  filter, and is 0 when no entry passed. An order is returned whenever no line of the
  email has a first digit run longer than the interpreter's limit and the quantities of
  the catalog can be formatted within it.
\<close>

theorem total_confidence_is_mean:
  "(process_email L cat email = Inr order \<longrightarrow>
     total_confidence_score order =
       (if items order = [] then 0
        else sum_list (map confidence_score (items order)) / of_nat (length (items order)))) \<and>
   ((\<forall>line \<in> set (splitlines (raw_content email)). \<forall>ds. first_digit_run line = Some ds
        \<longrightarrow> \<not> exceeds_limit L (length ds)) \<and>
    (\<forall>p \<in> set cat. \<not> exceeds_limit L (length (str_nat (nat \<bar>Min_Order_Quantity p\<bar>)))
        \<and> \<not> exceeds_limit L (length (str_nat (nat \<bar>Available_in_Stock p\<bar>)))) \<longrightarrow>
      (\<exists>order. process_email L cat email = Inr order))"
proof (intro conjI impI)
  assume "process_email L cat email = Inr order"
  from process_email_Inr [OF this] obtain entries where
    m: "list_all2 (\<lambda>e item. make_item L cat e = Inr item) (filtered_items entries) (items order)"
    and t: "total_confidence_score order =
          (if items order = [] then 0
           else sum_list (map (\<lambda>e. fst (snd (snd e))) (filtered_items entries))
                  / of_nat (length (items order)))"
    by blast
  from made_items_scores [OF m] t show "total_confidence_score order =
       (if items order = [] then 0
        else sum_list (map confidence_score (items order)) / of_nat (length (items order)))"
    by simp
next
  assume "(\<forall>line \<in> set (splitlines (raw_content email)). \<forall>ds. first_digit_run line = Some ds
        \<longrightarrow> \<not> exceeds_limit L (length ds)) \<and>
    (\<forall>p \<in> set cat. \<not> exceeds_limit L (length (str_nat (nat \<bar>Min_Order_Quantity p\<bar>)))
        \<and> \<not> exceeds_limit L (length (str_nat (nat \<bar>Available_in_Stock p\<bar>))))"
  then show "\<exists>order. process_email L cat email = Inr order"
    using process_email_returns [of email L cat] by blast
qed

lemma map_sum_InrE:
  assumes "map_sum id f m = Inr y"
  obtains x where "m = Inr x" "f x = y"
  using assms by (cases m) auto

lemma order_email_entries:
  "extract_products_and_quantities example_lib [super_widget, mega_bolt] (raw_content order_email)
     = Inr [(Some super_widget, 10, 1, ''SuperWidget''), (Some mega_bolt, 3, 1, ''Mega Bolt''),
            (None, 7, 1 / 2, ''zzz'')]"
  by code_simp

lemma chat_email_entries:
  "extract_products_and_quantities example_lib [super_widget, mega_bolt] (raw_content chat_email)
     = Inr []"
  by code_simp

lemma order_email_items:
  "\<exists>its. items_loop example_lib [super_widget, mega_bolt]
       (filtered_items [(Some super_widget, 10, 1, ''SuperWidget''),
          (Some mega_bolt, 3, 1, ''Mega Bolt''), (None, 7, 1 / 2, ''zzz'')]) [] 0 = Inr (its, 2)
     \<and> map sku its = [''SW-1'', ''MB-22''] \<and> map confidence_score its = [1, 1]"
proof -
  have "map_sum id (\<lambda>(its, tot). (map sku its, map confidence_score its, tot))
      (items_loop example_lib [super_widget, mega_bolt]
         (filtered_items [(Some super_widget, 10, 1, ''SuperWidget''),
            (Some mega_bolt, 3, 1, ''Mega Bolt''), (None, 7, 1 / 2, ''zzz'')]) [] 0)
     = Inr ([''SW-1'', ''MB-22''], [1, 1], 2)"
    by code_simp
  then obtain x where x: "items_loop example_lib [super_widget, mega_bolt]
         (filtered_items [(Some super_widget, 10, 1, ''SuperWidget''),
            (Some mega_bolt, 3, 1, ''Mega Bolt''), (None, 7, 1 / 2, ''zzz'')]) [] 0 = Inr x"
    and y: "(case x of (its, tot) \<Rightarrow> (map sku its, map confidence_score its, tot))
       = ([''SW-1'', ''MB-22''], [1, 1], 2)"
    by (rule map_sum_InrE)
  obtain its tot where p: "x = (its, tot)" by (cases x)
  from y have "map sku its = [''SW-1'', ''MB-22'']" "map confidence_score its = [1, 1]" "tot = 2"
    unfolding p by simp_all
  with x show ?thesis unfolding p by (intro exI [of _ its] conjI) simp_all
qed

theorem total_confidence_is_mean_witness:
  "(\<exists>order. process_email example_lib [super_widget, mega_bolt] order_email = Inr order
      \<and> map confidence_score (items order) = [1, 1] \<and> total_confidence_score order = 1) \<and>
   (\<exists>order. process_email example_lib [super_widget, mega_bolt] chat_email = Inr order
      \<and> items order = [] \<and> total_confidence_score order = 0)"
proof -
  let ?cat = "[super_widget, mega_bolt]"
  from order_email_items obtain its where
    l: "items_loop example_lib ?cat
       (filtered_items [(Some super_widget, 10, 1, ''SuperWidget''),
          (Some mega_bolt, 3, 1, ''Mega Bolt''), (None, 7, 1 / 2, ''zzz'')]) [] 0 = Inr (its, 2)"
    and c: "map confidence_score its = [1, 1]"
    by (elim exE conjE)
  have "splitlines (raw_content order_email)
      = [''Need 10 pcs of SuperWidget'', ''3 Mega Bolt before'', ''7 zzz'']"
    and "first_digit_run ''Need 10 pcs of SuperWidget'' = Some ''10''"
    and "first_digit_run ''3 Mega Bolt before'' = Some ''3''"
    and "first_digit_run ''7 zzz'' = Some ''7''"
    by code_simp+
  then have h1: "\<forall>line \<in> set (splitlines (raw_content order_email)).
      \<forall>ds. first_digit_run line = Some ds \<longrightarrow> \<not> exceeds_limit example_lib (length ds)"
    by (auto simp: exceeds_limit_def)
  have h2: "\<forall>p \<in> set ?cat.
      \<not> exceeds_limit example_lib (length (str_nat (nat \<bar>Min_Order_Quantity p\<bar>)))
      \<and> \<not> exceeds_limit example_lib (length (str_nat (nat \<bar>Available_in_Stock p\<bar>)))"
    by code_simp
  from total_confidence_is_mean [of example_lib ?cat order_email, THEN conjunct2, THEN mp,
      OF conjI, OF h1 h2]
  obtain order1 where p1: "process_email example_lib ?cat order_email = Inr order1"
    by (elim exE)
  from process_email_of_parts [OF order_email_entries l] obtain order1' where
    "process_email example_lib ?cat order_email = Inr order1'" and "items order1' = its"
    by (elim exE conjE)
  with p1 have i1: "items order1 = its" by simp
  from c i1 have s1: "map confidence_score (items order1) = [1, 1]" by simp
  then have "items order1 \<noteq> []" "length (items order1) = 2"
    by (auto dest: arg_cong [where f = length])
  with total_confidence_is_mean [THEN conjunct1, THEN mp, OF p1] s1 have t1: "total_confidence_score order1 = 1"
    by simp
  have "items_loop example_lib ?cat (filtered_items []) [] 0 = Inr ([], 0)"
    by (simp add: filtered_items_def)
  from process_email_of_parts [OF chat_email_entries this] obtain order2 where
    p2: "process_email example_lib ?cat chat_email = Inr order2" and i2: "items order2 = []"
    by (elim exE conjE)
  with total_confidence_is_mean [THEN conjunct1, THEN mp, OF p2] have t2: "total_confidence_score order2 = 0"
    by simp
  from p1 s1 t1 have "\<exists>order. process_email example_lib ?cat order_email = Inr order
      \<and> map confidence_score (items order) = [1, 1] \<and> total_confidence_score order = 1"
    by (intro exI [of _ order1] conjI)
  moreover from p2 i2 t2 have "\<exists>order. process_email example_lib ?cat chat_email = Inr order
      \<and> items order = [] \<and> total_confidence_score order = 0"
    by (intro exI [of _ order2] conjI)
  ultimately show ?thesis by (rule conjI)
qed

lemma get_close_matches_subset:
  "set (get_close_matches rt w ps n c) \<subseteq> set ps"
proof -
  let ?R = "map (\<lambda>x. (rt x w, x)) (filter (\<lambda>x. rt x w \<ge> c) ps)"
  have "set (nlargest n ?R) \<subseteq> set ?R"
    unfolding nlargest_def using set_take_subset [of n "rev (sort ?R)"] by simp
  then have "snd ` set (nlargest n ?R) \<subseteq> snd ` set ?R" by blast
  also have "\<dots> \<subseteq> set ps" by auto
  finally show ?thesis by (simp add: get_close_matches_def)
qed

lemma match_line_shape:
  assumes "match_line L cat line = Inr (Some (product, q, conf, name))"
  shows "(conf = 1 \<and> product \<noteq> None) \<or> (conf = 1 / 2 \<and> product = None)"
proof -
  from assms obtain ds where run: "first_digit_run line = Some ds"
    by (cases "first_digit_run line") (simp_all add: match_line_def)
  from assms have lim: "\<not> exceeds_limit L (length ds)"
    using match_line_too_long [OF run, of L cat] by auto
  note m = match_line_parsed [OF run lim, of cat]
  show ?thesis
  proof (cases "get_close_matches (ratio L) (strip_chars is_separator (remove_digit_runs line))
           (map Product_Name cat) 1 (3 / 5)")
    case Nil
    with assms m show ?thesis by simp
  next
    case (Cons b bs)
    then have "b \<in> set (map Product_Name cat)"
      using get_close_matches_subset [of "ratio L" "strip_chars is_separator (remove_digit_runs line)"
          "map Product_Name cat" 1 "3 / 5"] by auto
    from find_product_of_name [OF this, of L] obtain r where r: "find_product L cat b = Some r"
      by blast
    from assms m Cons have "product = find_product L cat b \<and> conf = 1" by auto
    with r show ?thesis by simp
  qed
qed

lemma extract_line_shape:
  assumes "extract_line L cat line = Inr (Some (product, q, conf, name))"
  shows "(conf = 1 \<and> product \<noteq> None) \<or> (conf = 1 / 2 \<and> product = None)"
proof -
  from assms have "match_line L cat line = Inr (Some (product, q, conf, name))"
    by (auto simp: extract_line_unfold split: sum.splits option.splits if_splits)
  then show ?thesis by (rule match_line_shape)
qed

lemma extracted_shape:
  assumes "extract_products_and_quantities L cat text = Inr entries"
    and "(product, q, conf, name) \<in> set entries"
  shows "(conf = 1 \<and> product \<noteq> None) \<or> (conf = 1 / 2 \<and> product = None)"
proof -
  from assms(1) have "entries = List.map_filter
      (\<lambda>line. case extract_line L cat line of Inr r \<Rightarrow> r | Inl e \<Rightarrow> None) (splitlines text)"
    by (simp add: extract_products_and_quantities_def extract_loop_eq split: if_splits)
  with assms(2) obtain line where
    "(case extract_line L cat line of Inr r \<Rightarrow> r | Inl e \<Rightarrow> None) = Some (product, q, conf, name)"
    by (auto simp: List.map_filter_def)
  then have "extract_line L cat line = Inr (Some (product, q, conf, name))"
    by (simp split: sum.splits)
  then show ?thesis by (rule extract_line_shape)
qed

lemma make_item_matched_issues:
  assumes "make_item L cat (Some p, q, conf, name) = Inr item"
    and "validation_issues item = Some issues"
  shows "''Product not found in catalog'' \<notin> set issues"
proof -
  from assms(1) obtain ok iss sug where
    v: "validate_against_catalog L cat (Some p) q = Inr (ok, iss, sug)"
    and i: "validation_issues item = (if \<not> ok then Some iss else None)"
    by (auto simp: make_item_def and_then_eq_Inr)
  from i assms(2) have "issues = iss" by (simp split: if_splits)
  with validate_present_Inr(2) [OF v] show ?thesis
    by (simp add: not_found_neq_moq_issue not_found_neq_stock_issue)
qed

text \<open>
  C9. Every item of an order \<open>process_email\<close> returns is built from an extracted
  entry whose confidence is at least 0.7; that confidence is therefore not 0.5, and the
  entry has a product. An item built from an entry that has a product does not carry
  "Product not found in catalog" among its validation issues.
\<close>

theorem order_items_from_confident_entries:
  "(process_email L cat email = Inr order \<longrightarrow>
      (\<exists>entries. extract_products_and_quantities L cat (raw_content email) = Inr entries \<and>
         (\<forall>item \<in> set (items order).
            \<exists>product q conf name.
              (product, q, conf, name) \<in> set entries
              \<and> conf \<ge> 7 / 10 \<and> conf \<noteq> 1 / 2 \<and> product \<noteq> None
              \<and> make_item L cat (product, q, conf, name) = Inr item
              \<and> confidence_score item = conf))) \<and>
   (\<forall>p q conf name item issues.
      make_item L cat (Some p, q, conf, name) = Inr item \<and> validation_issues item = Some issues
        \<longrightarrow> ''Product not found in catalog'' \<notin> set issues)"
proof (intro conjI impI allI)
  assume "process_email L cat email = Inr order"
  from process_email_Inr [OF this] obtain entries where
    x: "extract_products_and_quantities L cat (raw_content email) = Inr entries"
    and m: "list_all2 (\<lambda>e item. make_item L cat e = Inr item) (filtered_items entries) (items order)"
    by blast
  have "\<exists>product q conf name.
              (product, q, conf, name) \<in> set entries
              \<and> conf \<ge> 7 / 10 \<and> conf \<noteq> 1 / 2 \<and> product \<noteq> None
              \<and> make_item L cat (product, q, conf, name) = Inr item
              \<and> confidence_score item = conf" if "item \<in> set (items order)" for item
  proof -
    from made_items_source [OF m that] obtain e where
      e: "e \<in> set entries" "fst (snd (snd e)) \<ge> 7 / 10" "make_item L cat e = Inr item"
      by (auto simp: filtered_items_def)
    obtain product q conf name where s: "e = (product, q, conf, name)" by (cases e) auto
    with e(2) have c: "conf \<ge> 7 / 10" by simp
    from extracted_shape [OF x, of product q conf name] e(1) s c
    have "conf \<noteq> 1 / 2" "product \<noteq> None" by auto
    with e s c confidence_score_make_item [OF e(3)] show ?thesis by auto
  qed
  with x show "\<exists>entries. extract_products_and_quantities L cat (raw_content email) = Inr entries \<and>
         (\<forall>item \<in> set (items order).
            \<exists>product q conf name.
              (product, q, conf, name) \<in> set entries
              \<and> conf \<ge> 7 / 10 \<and> conf \<noteq> 1 / 2 \<and> product \<noteq> None
              \<and> make_item L cat (product, q, conf, name) = Inr item
              \<and> confidence_score item = conf)"
    by blast
next
  fix p q conf name item issues
  assume "make_item L cat (Some p, q, conf, name) = Inr item \<and> validation_issues item = Some issues"
  then show "''Product not found in catalog'' \<notin> set issues"
    using make_item_matched_issues by blast
qed

theorem order_items_from_confident_entries_witness:
  "extract_products_and_quantities example_lib [super_widget, mega_bolt] (raw_content order_email)
     = Inr [(Some super_widget, 10, 1, ''SuperWidget''), (Some mega_bolt, 3, 1, ''Mega Bolt''),
            (None, 7, 1 / 2, ''zzz'')] \<and>
   (\<exists>order. process_email example_lib [super_widget, mega_bolt] order_email = Inr order
      \<and> map sku (items order) = [''SW-1'', ''MB-22'']
      \<and> list_all (\<lambda>item. confidence_score item \<ge> 7 / 10 \<and> confidence_score item \<noteq> 1 / 2)
           (items order)) \<and>
   (\<exists>item. make_item example_lib [super_widget, mega_bolt]
               (Some super_widget, 10, 1, ''SuperWidget'') = Inr item
      \<and> validation_issues item
           = Some [''Quantity 10 is below MOQ of 20 for SuperWidget'',
                   ''Requested quantity 10 exceeds available stock of 5 for SuperWidget'']) \<and>
   ''Product not found in catalog''
      \<notin> set [''Quantity 10 is below MOQ of 20 for SuperWidget'',
               ''Requested quantity 10 exceeds available stock of 5 for SuperWidget'']"
proof -
  let ?cat = "[super_widget, mega_bolt]"
  from order_email_items obtain its where
    l: "items_loop example_lib ?cat
       (filtered_items [(Some super_widget, 10, 1, ''SuperWidget''),
          (Some mega_bolt, 3, 1, ''Mega Bolt''), (None, 7, 1 / 2, ''zzz'')]) [] 0 = Inr (its, 2)"
    and k: "map sku its = [''SW-1'', ''MB-22'']"
    by (elim exE conjE)
  from process_email_of_parts [OF order_email_entries l] obtain order1 where
    p1: "process_email example_lib ?cat order_email = Inr order1" and i1: "items order1 = its"
    by (elim exE conjE)
  from k i1 have b: "map sku (items order1) = [''SW-1'', ''MB-22'']" by simp
  note t = order_items_from_confident_entries [of example_lib ?cat order_email order1]
  from t [THEN conjunct1, THEN mp, OF p1] obtain entries where
    e: "\<forall>item \<in> set (items order1).
            \<exists>product q conf name.
              (product, q, conf, name) \<in> set entries
              \<and> conf \<ge> 7 / 10 \<and> conf \<noteq> 1 / 2 \<and> product \<noteq> None
              \<and> make_item example_lib ?cat (product, q, conf, name) = Inr item
              \<and> confidence_score item = conf"
    by (elim exE conjE)
  have c: "\<forall>item \<in> set (items order1).
      confidence_score item \<ge> 7 / 10 \<and> confidence_score item \<noteq> 1 / 2"
  proof
    fix item assume "item \<in> set (items order1)"
    with e obtain product q conf name where
      "conf \<ge> 7 / 10" "conf \<noteq> 1 / 2" "confidence_score item = conf" by blast
    then show "confidence_score item \<ge> 7 / 10 \<and> confidence_score item \<noteq> 1 / 2" by simp
  qed
  then have c': "list_all (\<lambda>item. confidence_score item \<ge> 7 / 10 \<and> confidence_score item \<noteq> 1 / 2)
     (items order1)"
    by (simp add: list_all_iff)
  have "map_sum id validation_issues
      (make_item example_lib ?cat (Some super_widget, 10, 1, ''SuperWidget''))
      = Inr (Some [''Quantity 10 is below MOQ of 20 for SuperWidget'',
              ''Requested quantity 10 exceeds available stock of 5 for SuperWidget''])"
    by code_simp
  then obtain item where
    d: "make_item example_lib ?cat (Some super_widget, 10, 1, ''SuperWidget'') = Inr item"
      "validation_issues item
         = Some [''Quantity 10 is below MOQ of 20 for SuperWidget'',
              ''Requested quantity 10 exceeds available stock of 5 for SuperWidget'']"
    by (rule map_sum_InrE)
  from t [THEN conjunct2, rule_format, OF conjI, OF d]
  have n: "''Product not found in catalog''
      \<notin> set [''Quantity 10 is below MOQ of 20 for SuperWidget'',
               ''Requested quantity 10 exceeds available stock of 5 for SuperWidget'']" .
  from p1 b c' have o: "\<exists>order. process_email example_lib ?cat order_email = Inr order
      \<and> map sku (items order) = [''SW-1'', ''MB-22'']
      \<and> list_all (\<lambda>item. confidence_score item \<ge> 7 / 10 \<and> confidence_score item \<noteq> 1 / 2)
           (items order)"
    by (intro exI [of _ order1] conjI)
  from d have m: "\<exists>item. make_item example_lib ?cat
               (Some super_widget, 10, 1, ''SuperWidget'') = Inr item
      \<and> validation_issues item
           = Some [''Quantity 10 is below MOQ of 20 for SuperWidget'',
                   ''Requested quantity 10 exceeds available stock of 5 for SuperWidget'']"
    by (intro exI [of _ item] conjI)
  from order_email_entries o m n show ?thesis by (intro conjI)
qed

text \<open>
  The models constrain both confidence scores to lie between 0 and 1. The values
  \<open>process_email\<close> passes satisfy the constraint, so the constructors it calls raise
  no validation error.
\<close>

lemma filtered_confidence_one:
  assumes "extract_products_and_quantities L cat text = Inr entries"
    and "e \<in> set (filtered_items entries)"
  shows "fst (snd (snd e)) = 1"
proof -
  obtain product q conf name where e: "e = (product, q, conf, name)" by (cases e) auto
  with assms(2) have "(product, q, conf, name) \<in> set entries" and "conf \<ge> 7 / 10"
    by (auto simp: filtered_items_def)
  with extracted_shape [OF assms(1), of product q conf name] have "conf = 1" by auto
  with e show ?thesis by simp
qed

lemma sum_list_all_one: "(\<forall>x \<in> set xs. f x = (1::rat)) \<Longrightarrow> sum_list (map f xs) = of_nat (length xs)"
  by (induction xs) auto

lemma process_email_scores_in_range:
  assumes "process_email L cat email = Inr order"
  shows "total_confidence_score order \<in> {0, 1} \<and>
   (\<forall>item \<in> set (items order). confidence_score item = 1)"
proof -
  from process_email_Inr [OF assms] obtain entries where
    x: "extract_products_and_quantities L cat (raw_content email) = Inr entries"
    and m: "list_all2 (\<lambda>e item. make_item L cat e = Inr item) (filtered_items entries) (items order)"
    and t: "total_confidence_score order =
          (if items order = [] then 0
           else sum_list (map (\<lambda>e. fst (snd (snd e))) (filtered_items entries))
                  / of_nat (length (items order)))"
    by blast
  have one: "\<forall>e \<in> set (filtered_items entries). fst (snd (snd e)) = 1"
    using filtered_confidence_one [OF x] by blast
  then have "sum_list (map (\<lambda>e. fst (snd (snd e))) (filtered_items entries))
      = of_nat (length (filtered_items entries))"
    by (rule sum_list_all_one)
  moreover from m have "length (filtered_items entries) = length (items order)"
    by (rule list_all2_lengthD)
  ultimately have "total_confidence_score order \<in> {0, 1}"
    using t by simp
  moreover have "\<forall>item \<in> set (items order). confidence_score item = 1"
  proof
    fix item assume "item \<in> set (items order)"
    from made_items_source [OF m this] obtain e where
      "e \<in> set (filtered_items entries)" "make_item L cat e = Inr item" by blast
    with one confidence_score_make_item [of L cat e item] show "confidence_score item = 1" by simp
  qed
  ultimately show ?thesis by blast
qed

subsection \<open>Suggestions for an absent product\<close>

text \<open>
  C5 (the code at a failing input). The catalog holds the name "SuperWidget", which is a
  fuzzy candidate (n = 2, cutoff 0.6) for the phrase "SuperWidgit"; validation of an
  absent product is invalid with the issue "Product not found in catalog", and its
  list of suggestions is empty all the same.
\<close>

theorem validate_absent_no_suggestions:
  "get_close_matches (ratio example_lib) ''SuperWidgit''
      (map Product_Name [super_widget, mega_bolt] @ map Product_Code [super_widget, mega_bolt])
      2 (3 / 5) = [''SuperWidget''] \<and>
   validate_against_catalog example_lib [super_widget, mega_bolt] None 5 =
     Inr (False, [''Product not found in catalog''], [])"
  by code_simp

subsection \<open>Loading the catalog\<close>

lemma escape_all_strings:
  "(\<forall>c \<in> set names. \<exists>s. c = StrCell s) \<Longrightarrow> \<exists>ns. escape_all names = Inr ns"
  by (induction names rule: escape_all.induct) auto

lemma escape_all_other:
  "\<not> (\<forall>c \<in> set names. \<exists>s. c = StrCell s) \<Longrightarrow> escape_all names = Inl TypeError"
  by (induction names rule: escape_all.induct) (auto split: sum.splits)

text \<open>
  C6 as stated fails: a table without the column \<^verbatim>\<open>Available_in_Stock\<close> loads.
\<close>

theorem catalog_load_counterexample:
  "column no_stock_table ''Available_in_Stock'' = Inl (KeyError ''Available_in_Stock'') \<and>
   map_sum id catalog (EmailProcessor_init no_stock_table) = Inr no_stock_table"
  by code_simp

text \<open>
  C6, amended. Loading fails with \<^verbatim>\<open>KeyError\<close> when the table has no column
  \<^verbatim>\<open>Product_Name\<close>, and with \<^verbatim>\<open>TypeError\<close> when a cell of that column is no string;
  a table whose column \<^verbatim>\<open>Product_Name\<close> holds strings loads, whatever other columns
  it has or lacks.
\<close>

theorem catalog_load_checks_name_column_only:
  "(map_of df ''Product_Name'' = None \<longrightarrow>
      EmailProcessor_init df = Inl (KeyError ''Product_Name'')) \<and>
   (\<forall>names. map_of df ''Product_Name'' = Some names \<longrightarrow>
      ((\<forall>c \<in> set names. \<exists>s. c = StrCell s) \<longrightarrow>
         (\<exists>proc. EmailProcessor_init df = Inr proc \<and> catalog proc = df)) \<and>
      (\<not> (\<forall>c \<in> set names. \<exists>s. c = StrCell s) \<longrightarrow>
         EmailProcessor_init df = Inl TypeError))"
proof (intro conjI allI impI)
  assume "map_of df ''Product_Name'' = None"
  then show "EmailProcessor_init df = Inl (KeyError ''Product_Name'')"
    by (simp add: EmailProcessor_init_def column_def)
next
  fix names
  assume n: "map_of df ''Product_Name'' = Some names"
    and "\<forall>c \<in> set names. \<exists>s. c = StrCell s"
  from escape_all_strings [OF this(2)] obtain ns where "escape_all names = Inr ns" by blast
  with n show "\<exists>proc. EmailProcessor_init df = Inr proc \<and> catalog proc = df"
    by (simp add: EmailProcessor_init_def column_def build_product_name_regex_def)
next
  fix names
  assume n: "map_of df ''Product_Name'' = Some names"
    and "\<not> (\<forall>c \<in> set names. \<exists>s. c = StrCell s)"
  from escape_all_other [OF this(2)] n
  show "EmailProcessor_init df = Inl TypeError"
    by (simp add: EmailProcessor_init_def column_def build_product_name_regex_def)
qed

theorem catalog_load_checks_name_column_only_witness:
  "map_of no_name_table ''Product_Name'' = None \<and>
   EmailProcessor_init no_name_table = Inl (KeyError ''Product_Name'') \<and>
   map_of no_stock_table ''Available_in_Stock'' = None \<and>
   map_of no_stock_table ''Product_Name'' = Some [StrCell ''SuperWidget'', StrCell ''Mega Bolt''] \<and>
   (\<exists>proc. EmailProcessor_init no_stock_table = Inr proc \<and> catalog proc = no_stock_table)"
proof -
  have a: "map_of no_name_table ''Product_Name'' = None" by code_simp
  have b: "map_of no_stock_table ''Available_in_Stock'' = None" by code_simp
  have c: "map_of no_stock_table ''Product_Name'' = Some [StrCell ''SuperWidget'', StrCell ''Mega Bolt'']"
    by code_simp
  have d: "\<forall>c \<in> set [StrCell ''SuperWidget'', StrCell ''Mega Bolt'']. \<exists>s. c = StrCell s"
    by simp
  note t1 = catalog_load_checks_name_column_only [of no_name_table, THEN conjunct1, THEN mp, OF a]
  note t2 = catalog_load_checks_name_column_only [of no_stock_table, THEN conjunct2, rule_format,
      OF c, THEN conjunct1, THEN mp, OF d]
  from a t1 b c t2 show ?thesis by (intro conjI)
qed

subsection \<open>The delivery address\<close>

lemma stripped_lines_nonempty: "l \<in> set (stripped_lines text) \<Longrightarrow> l \<noteq> []"
  by (auto simp: stripped_lines_def)

lemma keyword_loop_find:
  "keyword_loop line rest kws addr =
     (case List.find (\<lambda>k. contains k (lower line)) kws of
        None \<Rightarrow> addr
      | Some k \<Rightarrow> keyword_body line rest k addr)"
  by (induction kws) auto

lemma address_loop_skip:
  assumes "\<forall>l \<in> set before. \<forall>k \<in> set address_keywords. \<not> contains k (lower l)"
  shows "address_loop (before @ lines) None = address_loop lines None"
  using assms
proof (induction before)
  case Nil
  then show ?case by simp
next
  case (Cons l before)
  then have "List.find (\<lambda>k. contains k (lower l)) address_keywords = None"
    by (simp add: find_None_iff)
  then have "keyword_loop l (before @ lines) address_keywords None = None"
    by (simp add: keyword_loop_find)
  with Cons show ?case by (simp add: truthy_def)
qed

lemma after_first_colon_none: "CHR '':'' \<notin> set line \<Longrightarrow> after_first_colon line = line"
proof -
  assume "CHR '':'' \<notin> set line"
  then have dw: "dropWhile (\<lambda>c. c \<noteq> CHR '':'') line = []" by (auto simp: dropWhile_eq_Nil_conv)
  show ?thesis unfolding after_first_colon_def dw by simp
qed

lemma after_first_colon_split:
  "CHR '':'' \<notin> set a \<Longrightarrow> after_first_colon (a @ CHR '':'' # b) = b"
proof -
  assume "CHR '':'' \<notin> set a"
  then have dw: "dropWhile (\<lambda>c. c \<noteq> CHR '':'') (a @ CHR '':'' # b) = CHR '':'' # b"
    by (auto simp: dropWhile_append3)
  show ?thesis unfolding after_first_colon_def dw by simp
qed

lemma extract_address_of_loop:
  "address_loop (stripped_lines text) None = Some a \<Longrightarrow> a \<noteq> [] \<Longrightarrow> extract_address text = Some a"
  by (simp add: extract_address_def truthy_def Let_def)

lemma extract_address_fallback:
  "address_loop (stripped_lines text) None = None \<Longrightarrow>
     extract_address text = fallback_loop (stripped_lines text) None"
  by (simp add: extract_address_def truthy_def Let_def)

lemma address_loop_step_some:
  "keyword_loop line rest address_keywords None = Some a \<Longrightarrow> a \<noteq> [] \<Longrightarrow>
     address_loop (line # rest) None = Some a"
  by (simp add: truthy_def)

lemma address_loop_step_last:
  "keyword_loop line [] address_keywords None = None \<Longrightarrow> address_loop [line] None = None"
  by (simp add: truthy_def)

text \<open>
  C7, amended. Take the first line that contains an address keyword, and the first
  keyword of the list it contains. The address is what follows the first colon of that
  line (the whole line when it has no colon), stripped, if that is non-empty and
  differs, letter case ignored, from the keyword. Otherwise it is the next non-empty
  line, joined by ", " with the line after it when that line contains an address token
  or a comma; when no line follows, the fallback search over all lines decides.
\<close>

theorem address_from_first_keyword_line:
  assumes "stripped_lines text = before @ line # rest"
    and "\<forall>l \<in> set before. \<forall>k \<in> set address_keywords. \<not> contains k (lower l)"
    and "List.find (\<lambda>k. contains k (lower line)) address_keywords = Some keyword"
  shows "(CHR '':'' \<notin> set line \<longrightarrow> after_first_colon line = line) \<and>
    (\<forall>a b. line = a @ CHR '':'' # b \<and> CHR '':'' \<notin> set a \<longrightarrow> after_first_colon line = b) \<and>
    extract_address text =
     (let after_colon = strip (after_first_colon line)
      in if after_colon \<noteq> [] \<and> lower after_colon \<noteq> keyword then Some after_colon
         else (case rest of
                 [] \<Rightarrow> fallback_loop (stripped_lines text) None
               | [next_line] \<Rightarrow> Some next_line
               | next_line # line2 # _ \<Rightarrow>
                   if looks_like_address line2 then Some (next_line @ '', '' @ line2)
                   else Some next_line))"
proof (intro conjI allI impI)
  assume "CHR '':'' \<notin> set line"
  then show "after_first_colon line = line" by (rule after_first_colon_none)
next
  fix a b assume "line = a @ CHR '':'' # b \<and> CHR '':'' \<notin> set a"
  then show "after_first_colon line = b" by (simp add: after_first_colon_split)
next
  let ?after = "strip (after_first_colon line)"
  have loop: "address_loop (stripped_lines text) None = address_loop (line # rest) None"
    unfolding assms(1) using assms(2) by (rule address_loop_skip)
  have step: "keyword_loop line rest address_keywords None = keyword_body line rest keyword None"
    by (simp add: keyword_loop_find assms(3))
  have ne: "\<forall>l \<in> set rest. l \<noteq> []"
    using stripped_lines_nonempty [of _ "text"] by (simp add: assms(1))
  show "extract_address text =
     (let after_colon = ?after
      in if after_colon \<noteq> [] \<and> lower after_colon \<noteq> keyword then Some after_colon
         else (case rest of
                 [] \<Rightarrow> fallback_loop (stripped_lines text) None
               | [next_line] \<Rightarrow> Some next_line
               | next_line # line2 # _ \<Rightarrow>
                   if looks_like_address line2 then Some (next_line @ '', '' @ line2)
                   else Some next_line))"
  proof (cases "?after \<noteq> [] \<and> lower ?after \<noteq> keyword")
    case True
    then have "keyword_body line rest keyword None = Some ?after"
      by (simp add: keyword_body_def Let_def)
    with step have "keyword_loop line rest address_keywords None = Some ?after" by simp
    from address_loop_step_some [OF this] True
    have "address_loop (line # rest) None = Some ?after" by simp
    with loop have "address_loop (stripped_lines text) None = Some ?after" by simp
    from extract_address_of_loop [OF this] True
    have "extract_address text = Some ?after" by simp
    with True show ?thesis by (simp add: Let_def)
  next
    case False
    show ?thesis
    proof (cases rest)
      case Nil
      from False have "keyword_body line [] keyword None = None"
        by (auto simp: keyword_body_def Let_def)
      with step Nil have "keyword_loop line [] address_keywords None = None" by simp
      from address_loop_step_last [OF this] Nil
      have "address_loop (line # rest) None = None" by simp
      with loop have "address_loop (stripped_lines text) None = None" by simp
      from extract_address_fallback [OF this]
      have "extract_address text = fallback_loop (stripped_lines text) None" .
      with False Nil show ?thesis by (auto simp: Let_def)
    next
      case (Cons next_line rest')
      with ne have n: "next_line \<noteq> []" by simp
      show ?thesis
      proof (cases rest')
        case Nil
        with False Cons have "keyword_body line rest keyword None = Some next_line"
          by (auto simp: keyword_body_def Let_def)
        with step have "keyword_loop line rest address_keywords None = Some next_line" by simp
        from address_loop_step_some [OF this n] loop
        have "address_loop (stripped_lines text) None = Some next_line" by simp
        from extract_address_of_loop [OF this n]
        have "extract_address text = Some next_line" .
        with False Cons Nil show ?thesis by (auto simp: Let_def)
      next
        case (Cons line2 rest'')
        let ?a = "if looks_like_address line2 then next_line @ '', '' @ line2 else next_line"
        from False \<open>rest = next_line # rest'\<close> Cons
        have "keyword_body line rest keyword None = Some ?a"
          by (auto simp: keyword_body_def Let_def)
        moreover have a: "?a \<noteq> []" using n by simp
        ultimately have "keyword_loop line rest address_keywords None = Some ?a"
          using step by simp
        from address_loop_step_some [OF this a] loop
        have "address_loop (stripped_lines text) None = Some ?a" by simp
        from extract_address_of_loop [OF this a]
        have "extract_address text = Some ?a" .
        with False \<open>rest = next_line # rest'\<close> Cons show ?thesis by (auto simp: Let_def)
      qed
    qed
  qed
qed

text \<open>
  C7 as stated fails: the keyword line below has no colon, and so no text after a colon,
  and a non-empty line follows it; the address is the keyword line itself, not the next
  line.
\<close>

theorem address_no_colon_counterexample:
  "stripped_lines no_colon_text = [''Please ship to the warehouse'', ''42 Elm Street''] \<and>
   contains ''ship to'' (lower ''Please ship to the warehouse'') \<and>
   CHR '':'' \<notin> set ''Please ship to the warehouse'' \<and>
   extract_address no_colon_text = Some ''Please ship to the warehouse'' \<and>
   extract_address no_colon_text \<noteq> Some ''42 Elm Street''"
  by code_simp

theorem address_from_first_keyword_line_witness:
  "stripped_lines scenario_c_text = [] @ scenario_c_text # [] \<and>
   List.find (\<lambda>k. contains k (lower scenario_c_text)) address_keywords = Some ''ship to'' \<and>
   extract_address scenario_c_text = Some ''123 Main Street, Springfield'' \<and>
   stripped_lines ship_block_text = [] @ ''Ship to:'' # [''Bob'', ''42 Elm Street''] \<and>
   looks_like_address ''42 Elm Street'' \<and>
   extract_address ship_block_text = Some ''Bob, 42 Elm Street''"
proof -
  have s1: "stripped_lines scenario_c_text = [] @ scenario_c_text # []" by code_simp
  have b: "\<forall>l \<in> set []. \<forall>k \<in> set address_keywords. \<not> contains k (lower l)" by simp
  have k1: "List.find (\<lambda>k. contains k (lower scenario_c_text)) address_keywords = Some ''ship to''"
    by code_simp
  have a1: "strip (after_first_colon scenario_c_text) = ''123 Main Street, Springfield''"
    by code_simp
  have n1: "lower ''123 Main Street, Springfield'' \<noteq> ''ship to''" by code_simp
  from address_from_first_keyword_line [OF s1 b k1, THEN conjunct2, THEN conjunct2]
  have c1: "extract_address scenario_c_text = Some ''123 Main Street, Springfield''"
    unfolding a1 Let_def using n1 by simp
  have s2: "stripped_lines ship_block_text = [] @ ''Ship to:'' # [''Bob'', ''42 Elm Street'']"
    by code_simp
  have k2: "List.find (\<lambda>k. contains k (lower ''Ship to:'')) address_keywords = Some ''ship to''"
    by code_simp
  have a2: "strip (after_first_colon ''Ship to:'') = []" by code_simp
  have l2: "looks_like_address ''42 Elm Street''" by code_simp
  from address_from_first_keyword_line [OF s2 b k2, THEN conjunct2, THEN conjunct2]
  have c2: "extract_address ship_block_text = Some ''Bob, 42 Elm Street''"
    unfolding a2 Let_def using l2 by simp
  from s1 k1 c1 s2 l2 c2 show ?thesis by (intro conjI)
qed

subsection \<open>Delivery details and notes in the order\<close>

lemma no_digit_lines:
  assumes "\<forall>line \<in> set lines. \<forall>c \<in> set line. \<not> isdigit c"
  shows "extract_loop L cat lines [] = Inr []"
proof -
  have e: "extract_line L cat line = Inr None" if "line \<in> set lines" for line
    using that assms by (simp add: extract_line_unfold match_line_no_digit first_digit_run_none)
  then have "List.map_filter
      (\<lambda>line. case extract_line L cat line of Inr r \<Rightarrow> r | Inl e \<Rightarrow> None) lines = []"
    by (induction lines) (simp_all add: List.map_filter_simps)
  with e show ?thesis by (simp add: extract_loop_eq)
qed

lemma process_email_no_items:
  assumes "\<forall>line \<in> set (splitlines (raw_content email)). \<forall>c \<in> set line. \<not> isdigit c"
    and "sender email = None" and "received_at email = None"
  shows "process_email L cat email =
     Inr \<lparr>order_id = ''ORD-TEMP'', customer_email = ''unknown@email.com'', items = [],
      delivery_preferences = None, created_at = now L, status = ''pending'',
      total_confidence_score = 0, order_validation_issues = Some []\<rparr>"
  using no_digit_lines [OF assms(1), of L cat] assms(2,3)
  by (simp add: process_email_def Order_init_def extract_products_and_quantities_def
      filtered_items_def all_issues_def truthy_def Let_def)

text \<open>
  C1 (the code at a failing input). The two emails below differ in the address and in
  the notes the extractors find in them, and \<open>process_email\<close> returns the same order
  for both: the order has no field for the delivery details or for the notes, and the
  two keyword arguments that carry them are dropped by the constructor.
\<close>

theorem process_email_drops_delivery_details:
  "address (extract_delivery_details L (raw_content ship_email_a)) = Some ''Main Street, Springfield'' \<and>
   address (extract_delivery_details L (raw_content ship_email_b)) = Some ''Elm Road, Shelbyville'' \<and>
   extract_customer_notes (raw_content ship_email_a) = Some ''call first'' \<and>
   extract_customer_notes (raw_content ship_email_b) = Some ''ring twice'' \<and>
   process_email L cat ship_email_a =
     Inr \<lparr>order_id = ''ORD-TEMP'', customer_email = ''unknown@email.com'', items = [],
      delivery_preferences = None, created_at = now L, status = ''pending'',
      total_confidence_score = 0, order_validation_issues = Some []\<rparr> \<and>
   process_email L cat ship_email_b = process_email L cat ship_email_a"
proof -
  have a1: "extract_address (raw_content ship_email_a) = Some ''Main Street, Springfield''"
    by code_simp
  have a2: "extract_address (raw_content ship_email_b) = Some ''Elm Road, Shelbyville''"
    by code_simp
  have n1: "extract_customer_notes (raw_content ship_email_a) = Some ''call first''"
    by code_simp
  have n2: "extract_customer_notes (raw_content ship_email_b) = Some ''ring twice''"
    by code_simp
  have d1: "\<forall>line \<in> set (splitlines (raw_content ship_email_a)). \<forall>c \<in> set line. \<not> isdigit c"
    by code_simp
  have d2: "\<forall>line \<in> set (splitlines (raw_content ship_email_b)). \<forall>c \<in> set line. \<not> isdigit c"
    by code_simp
  have s: "sender ship_email_a = None" "received_at ship_email_a = None"
    "sender ship_email_b = None" "received_at ship_email_b = None"
    by (simp_all add: ship_email_a_def ship_email_b_def)
  note p1 = process_email_no_items [OF d1 s(1,2), of L cat]
  note p2 = process_email_no_items [OF d2 s(3,4), of L cat]
  from a1 a2 n1 n2 p1 p2 show ?thesis
    by (simp add: extract_delivery_details_def)
qed

end
